theory Spec2Isabelle
  imports Main "HOL-Library.Sublist" "HOL-Library.Product_Lexorder" "HOL-Library.Multiset"
begin

section \<open>Python values, exceptions and output\<close>

text \<open>
  The model covers \<open>rabbitmq_interface.py\<close>. Exceptions are values: a call that can raise
  returns \<open>exn + 'a\<close> with \<open>Inl\<close> for the exception. Values obtained from
  \<open>json.loads\<close> are of type \<open>json\<close>; a Python \<open>dict\<close> is an association list read
  with \<open>map_of\<close>. Text written by \<open>print\<close> or through the logger is a list of lines, each
  with its level, its fixed wording (without decoration) and the values interpolated into
  it; banner and separator lines are left out.
\<close>

datatype exn =
    UnicodeDecodeError | JSONDecodeError | AttributeError | TypeError | ValueError
  | ChannelClosedByBroker | ChannelWrongStateError | RequestException | StatusException int

datatype json =
    JNull | JBool bool | JInt int | JFloat string | JStr string
  | JList "json list" | JDict "(string \<times> json) list"

datatype level = PRINT | DEBUG | INFO | WARNING | ERROR

type_synonym line = "level \<times> string \<times> json list"

fun exn_str :: "exn \<Rightarrow> json" where
  "exn_str UnicodeDecodeError = JStr ''UnicodeDecodeError''"
| "exn_str JSONDecodeError = JStr ''JSONDecodeError''"
| "exn_str AttributeError = JStr ''AttributeError''"
| "exn_str TypeError = JStr ''TypeError''"
| "exn_str ValueError = JStr ''ValueError''"
| "exn_str ChannelClosedByBroker = JStr ''ChannelClosedByBroker''"
| "exn_str ChannelWrongStateError = JStr ''ChannelWrongStateError''"
| "exn_str RequestException = JStr ''RequestException''"
| "exn_str (StatusException code) = JStr ''Management API returned status''"

text \<open>
  A message body is a byte string. The code never looks at the bytes themselves: it calls
  \<open>json.loads(body.decode("utf-8"))\<close>, and on a JSON error shows
  \<open>body.decode("utf-8", errors="ignore")\<close>. A body is therefore its bytes together with
  what the two library calls do on them: \<open>bytes.decode\<close> raises UnicodeDecodeError on
  bytes that are not UTF-8, \<open>json.loads\<close> raises JSONDecodeError on text that is not
  JSON, and otherwise a value is returned.
\<close>

datatype decoded = NotUtf8 | NotJson | Value json

datatype body = Body (raw: string) (decoded: decoded)

fun json_loads_decode :: "body \<Rightarrow> exn + json" where
  "json_loads_decode (Body bs NotUtf8) = Inl UnicodeDecodeError"
| "json_loads_decode (Body bs NotJson) = Inl JSONDecodeError"
| "json_loads_decode (Body bs (Value v)) = Inr v"

text \<open>\<open>data.get(key, default)\<close>: only a dict has the method.\<close>

fun py_get :: "json \<Rightarrow> string \<Rightarrow> json \<Rightarrow> exn + json" where
  "py_get (JDict d) k dflt = Inr (case map_of d k of Some v \<Rightarrow> v | None \<Rightarrow> dflt)"
| "py_get _ k dflt = Inl AttributeError"

text \<open>\<open>len(x)\<close> and \<open>x[:50]\<close> on a decoded value, as the RAW branch uses them.\<close>

fun py_len :: "json \<Rightarrow> exn + int" where
  "py_len (JStr s) = Inr (int (length s))"
| "py_len (JList xs) = Inr (int (length xs))"
| "py_len (JDict d) = Inr (int (length d))"
| "py_len _ = Inl TypeError"

fun py_prefix :: "nat \<Rightarrow> json \<Rightarrow> exn + json" where
  "py_prefix n (JStr s) = Inr (JStr (take n s))"
| "py_prefix n (JList xs) = Inr (JList (take n xs))"
| "py_prefix n _ = Inl TypeError"

section \<open>Displaying one message\<close>

text \<open>
  A piece of code that writes lines and may raise part-way returns the lines written so
  far and the exception, if any. \<open>then_do\<close> runs a second piece after a first one that
  did not raise.
\<close>

type_synonym effect = "line list \<times> exn option"

fun then_do :: "effect \<Rightarrow> effect \<Rightarrow> effect" where
  "then_do (ls, None) (ls', r) = (ls @ ls', r)"
| "then_do (ls, Some e) _ = (ls, Some e)"

text \<open>\<open>logger.info(f"  Label: {obj.get(key, 'N/A')}")\<close>\<close>

definition info_get :: "string \<Rightarrow> json \<Rightarrow> string \<Rightarrow> effect" where
  "info_get label obj k =
     (case py_get obj k (JStr ''N/A'') of
        Inl e \<Rightarrow> ([], Some e)
      | Inr v \<Rightarrow> ([(INFO, label, [v])], None))"

definition display_connection :: "json \<Rightarrow> effect" where
  "display_connection data =
     (case py_get data ''message'' (JDict []) of
        Inl e \<Rightarrow> ([], Some e)
      | Inr message_data \<Rightarrow>
          then_do (info_get ''Status'' message_data ''status'')
                  (info_get ''Source'' message_data ''source''))"

definition display_data :: "json \<Rightarrow> effect" where
  "display_data data =
     (case py_get data ''message'' (JDict []) of
        Inl e \<Rightarrow> ([], Some e)
      | Inr message_data \<Rightarrow>
          then_do
            (case py_get message_data ''lon'' (JStr ''N/A'') of
               Inl e \<Rightarrow> ([], Some e)
             | Inr lon \<Rightarrow>
                 (case py_get message_data ''lat'' (JStr ''N/A'') of
                    Inl e \<Rightarrow> ([], Some e)
                  | Inr lat \<Rightarrow> ([(INFO, ''Location'', [lon, lat])], None)))
         (then_do (info_get ''Speed'' message_data ''speed'')
         (then_do (info_get ''Altitude'' message_data ''alt'')
         (then_do (info_get ''Satellites'' message_data ''sat_num'')
         (then_do (info_get ''Bearing'' message_data ''bearing'')
                  (info_get ''Priority'' message_data ''priority''))))))"

definition display_raw :: "json \<Rightarrow> effect" where
  "display_raw data =
     (case py_get data ''message'' (JDict []) of
        Inl e \<Rightarrow> ([], Some e)
      | Inr message_data \<Rightarrow>
          (case py_get message_data ''raw_data'' (JStr []) of
             Inl e \<Rightarrow> ([], Some e)
           | Inr hex_data \<Rightarrow>
               (case py_len hex_data of
                  Inl e \<Rightarrow> ([], Some e)
                | Inr n \<Rightarrow>
                    (case py_prefix 50 hex_data of
                       Inl e \<Rightarrow> ([(INFO, ''Raw data length'', [JInt n])], Some e)
                     | Inr pre \<Rightarrow>
                         ([(INFO, ''Raw data length'', [JInt n]),
                           (INFO, ''Raw data preview'', [pre])], None)))))"

text \<open>
  \<open>_display_message(msg_num, body, show_json)\<close>. Only \<open>json.JSONDecodeError\<close> is
  caught; any other exception leaves the function.
\<close>

definition display_message :: "json \<Rightarrow> body \<Rightarrow> bool \<Rightarrow> effect" where
  "display_message msg_num body show_json =
     (case json_loads_decode body of
        Inl e \<Rightarrow>
          (if e = JSONDecodeError
           then ([(INFO, ''Message (raw)'', [msg_num]),
                  (INFO, ''Raw data'', [JStr (raw body)])], None)
           else ([], Some e))
      | Inr data \<Rightarrow>
          (case py_get data ''type'' (JStr ''UNKNOWN'') of
             Inl e \<Rightarrow> ([], Some e)
           | Inr msg_type \<Rightarrow>
               then_do ([(INFO, ''Message'', [msg_num]), (INFO, ''Type'', [msg_type])], None)
              (then_do (info_get ''IMEI'' data ''imei'')
              (then_do (info_get ''Device'' data ''device'')
              (then_do (info_get ''Timestamp'' data ''timestamp'')
              (then_do
                 (if msg_type = JStr ''CONNECTION'' then display_connection data
                  else if msg_type = JStr ''DATA'' then display_data data
                  else if msg_type = JStr ''RAW'' then display_raw data
                  else ([], None))
                 (if show_json then [(INFO, ''Full JSON'', [data])] else [], None)))))))"

section \<open>The broker, seen through one channel\<close>

text \<open>
  The broker holds named queues; a queue holds its ready messages in delivery order. The
  channel remembers the messages it fetched and has not yet acknowledged, under the
  delivery tags it handed out, and (for the properties that speak about the order of
  operations) every call made on it. A negative acknowledgment with requeue puts the
  message back at the head of its queue. No other client acts on the broker while an
  operation runs, and consumers do not take messages during it.

  A call that the broker refuses (a passive declaration or a fetch on a queue that does not
  exist, a redeclaration with another durability, an acknowledgment of an unknown delivery
  tag) raises ChannelClosedByBroker and closes the channel. Every later call on the closed
  channel raises ChannelWrongStateError and reaches no queue, until
  \<open>ensure_connection\<close> opens a new channel. The connection itself stays open. What the
  broker does with the messages a closed channel held unacknowledged is not modelled: they
  stay recorded as unacknowledged.
\<close>

record queue =
  msgs :: "body list"
  consumer_count :: nat
  is_durable :: bool

datatype call =
    Declare string bool
  | DeclarePassive string
  | Publish string body bool
  | Get string "nat option"
  | Nack nat bool
  | Ack nat

record channel =
  queues :: "string \<rightharpoonup> queue"
  unacked :: "(nat \<times> string \<times> body) list"
  next_tag :: nat
  calls :: "call list"
  is_open :: bool

definition called :: "call \<Rightarrow> channel \<Rightarrow> channel" where
  "called c ch = ch\<lparr>calls := calls ch @ [c]\<rparr>"

text \<open>The call \<open>c\<close> was refused by the broker, which closes the channel.\<close>

definition refused :: "call \<Rightarrow> channel \<Rightarrow> channel" where
  "refused c ch = called c (ch\<lparr>is_open := False\<rparr>)"

text \<open>
  \<open>ensure_connection()\<close> with the connection open: nothing if the channel is open, else
  a new channel after the log line.
\<close>

definition ensure_connection :: "channel \<Rightarrow> channel \<times> line list" where
  "ensure_connection ch =
     (if is_open ch then (ch, [])
      else (ch\<lparr>is_open := True\<rparr>, [(INFO, ''Channel lost, recreating...'', [])]))"

text \<open>\<open>channel.queue_declare(queue=q, passive=True)\<close>: message and consumer counts.\<close>

definition queue_declare_passive :: "channel \<Rightarrow> string \<Rightarrow> (exn + int \<times> int) \<times> channel" where
  "queue_declare_passive ch q =
     (if \<not> is_open ch then (Inl ChannelWrongStateError, called (DeclarePassive q) ch)
      else (case queues ch q of
              None \<Rightarrow> (Inl ChannelClosedByBroker, refused (DeclarePassive q) ch)
            | Some qu \<Rightarrow>
                (Inr (int (length (msgs qu)), int (consumer_count qu)),
                 called (DeclarePassive q) ch)))"

text \<open>
  \<open>channel.queue_declare(queue=q, durable=d)\<close>: creates the queue if absent; the broker
  refuses a redeclaration with another durability.
\<close>

definition queue_declare :: "channel \<Rightarrow> string \<Rightarrow> bool \<Rightarrow> (exn + int \<times> int) \<times> channel" where
  "queue_declare ch q d =
     (if \<not> is_open ch then (Inl ChannelWrongStateError, called (Declare q d) ch)
      else (case queues ch q of
              None \<Rightarrow>
                (Inr (0, 0),
                 called (Declare q d)
                   (ch\<lparr>queues := (queues ch)(q \<mapsto> \<lparr>msgs = [], consumer_count = 0, is_durable = d\<rparr>)\<rparr>))
            | Some qu \<Rightarrow>
                (if is_durable qu = d
                 then (Inr (int (length (msgs qu)), int (consumer_count qu)), called (Declare q d) ch)
                 else (Inl ChannelClosedByBroker, refused (Declare q d) ch))))"

text \<open>
  \<open>channel.basic_publish(exchange="", routing_key=q, body=b, ...)\<close>: the default
  exchange routes to the queue of that name, and drops the message if there is none.
\<close>

definition basic_publish :: "channel \<Rightarrow> string \<Rightarrow> body \<Rightarrow> bool \<Rightarrow> (exn + unit) \<times> channel" where
  "basic_publish ch q b persistent =
     (if \<not> is_open ch then (Inl ChannelWrongStateError, called (Publish q b persistent) ch)
      else (case queues ch q of
              None \<Rightarrow> (Inr (), called (Publish q b persistent) ch)
            | Some qu \<Rightarrow>
                (Inr (),
                 called (Publish q b persistent)
                   (ch\<lparr>queues := (queues ch)(q \<mapsto> qu\<lparr>msgs := msgs qu @ [b]\<rparr>)\<rparr>))))"

text \<open>
  \<open>channel.basic_get(q, auto_ack=False)\<close>: \<open>None\<close> when the queue is empty, else the
  head of the queue under a fresh delivery tag; the message stays unacknowledged.
\<close>

definition basic_get :: "channel \<Rightarrow> string \<Rightarrow> (exn + (nat \<times> body) option) \<times> channel" where
  "basic_get ch q =
     (if \<not> is_open ch then (Inl ChannelWrongStateError, called (Get q None) ch)
      else (case queues ch q of
              None \<Rightarrow> (Inl ChannelClosedByBroker, refused (Get q None) ch)
            | Some qu \<Rightarrow>
                (case msgs qu of
                   [] \<Rightarrow> (Inr None, called (Get q None) ch)
                 | b # rest \<Rightarrow>
                     (Inr (Some (next_tag ch, b)),
                      called (Get q (Some (next_tag ch)))
                        (ch\<lparr>queues := (queues ch)(q \<mapsto> qu\<lparr>msgs := rest\<rparr>),
                            unacked := (next_tag ch, q, b) # unacked ch,
                            next_tag := Suc (next_tag ch)\<rparr>)))))"

fun take_unacked :: "nat \<Rightarrow> (nat \<times> string \<times> body) list
    \<Rightarrow> ((string \<times> body) \<times> (nat \<times> string \<times> body) list) option" where
  "take_unacked t [] = None"
| "take_unacked t ((t', q, b) # us) =
     (if t = t' then Some ((q, b), us)
      else (case take_unacked t us of
              None \<Rightarrow> None
            | Some (qb, us') \<Rightarrow> Some (qb, (t', q, b) # us')))"

text \<open>
  \<open>channel.basic_nack(delivery_tag=t, requeue=r)\<close>: an unknown tag is a channel error.
\<close>

definition basic_nack :: "channel \<Rightarrow> nat \<Rightarrow> bool \<Rightarrow> (exn + unit) \<times> channel" where
  "basic_nack ch t requeue =
     (if \<not> is_open ch then (Inl ChannelWrongStateError, called (Nack t requeue) ch)
      else (case take_unacked t (unacked ch) of
              None \<Rightarrow> (Inl ChannelClosedByBroker, refused (Nack t requeue) ch)
            | Some ((q, b), us) \<Rightarrow>
                (Inr (),
                 called (Nack t requeue)
                   (if requeue
                    then (case queues ch q of
                            None \<Rightarrow> ch\<lparr>unacked := us\<rparr>
                          | Some qu \<Rightarrow>
                              ch\<lparr>queues := (queues ch)(q \<mapsto> qu\<lparr>msgs := b # msgs qu\<rparr>),
                                  unacked := us\<rparr>)
                    else ch\<lparr>unacked := us\<rparr>))))"

definition basic_ack :: "channel \<Rightarrow> nat \<Rightarrow> (exn + unit) \<times> channel" where
  "basic_ack ch t =
     (if \<not> is_open ch then (Inl ChannelWrongStateError, called (Ack t) ch)
      else (case take_unacked t (unacked ch) of
              None \<Rightarrow> (Inl ChannelClosedByBroker, refused (Ack t) ch)
            | Some (qb, us) \<Rightarrow> (Inr (), called (Ack t) (ch\<lparr>unacked := us\<rparr>))))"

section \<open>Loops with \<open>break\<close>, \<open>continue\<close> and exceptions\<close>

text \<open>
  A loop body takes the loop's variables and ends in one of three ways. \<open>for_range\<close> is
  \<open>for i in range(n)\<close> counting from \<open>i\<close>, and \<open>for_each\<close> is
  \<open>for i, x in enumerate(xs, i)\<close>: both stop at the first \<open>break\<close> or exception and
  say which exception, if any, left the loop.
\<close>

datatype 's flow = Next 's | Break 's | Raise exn 's

text \<open>
  Every loop carries the channel and the lines written so far; the records of the
  individual loops add their local variables.
\<close>

record io =
  chan :: channel
  out :: "line list"

fun for_range :: "(nat \<Rightarrow> 's \<Rightarrow> 's flow) \<Rightarrow> nat \<Rightarrow> nat \<Rightarrow> 's \<Rightarrow> exn option \<times> 's" where
  "for_range body i 0 s = (None, s)"
| "for_range body i (Suc n) s =
     (case body i s of
        Next s' \<Rightarrow> for_range body (Suc i) n s'
      | Break s' \<Rightarrow> (None, s')
      | Raise e s' \<Rightarrow> (Some e, s'))"

fun for_each :: "(nat \<Rightarrow> 'a \<Rightarrow> 's \<Rightarrow> 's flow) \<Rightarrow> nat \<Rightarrow> 'a list \<Rightarrow> 's \<Rightarrow> exn option \<times> 's" where
  "for_each body i [] s = (None, s)"
| "for_each body i (x # xs) s =
     (case body i x s of
        Next s' \<Rightarrow> for_each body (Suc i) xs s'
      | Break s' \<Rightarrow> (None, s')
      | Raise e s' \<Rightarrow> (Some e, s'))"

section \<open>Browsing the data queue: \<open>peek_messages\<close>\<close>

text \<open>
  The fields of \<open>self\<close> that the operations read: \<open>data_queue\<close> is set once, in
  \<open>__init__\<close>; \<open>target_imei\<close> is \<open>None\<close> or a string, and the filter is active when
  it is truthy, that is a non-empty string.
\<close>

definition data_queue :: string where
  "data_queue = ''device_tcp_data''"

fun filtering :: "string option \<Rightarrow> bool" where
  "filtering None = False"
| "filtering (Some t) = (t \<noteq> [])"

text \<open>
  The IMEI filter of the loop body: \<open>Inr True\<close> when the message goes on to be displayed,
  \<open>Inr False\<close> for \<open>continue\<close>, \<open>Inl\<close> when the check itself raises.
\<close>

fun peek_filter :: "string option \<Rightarrow> body \<Rightarrow> exn + bool" where
  "peek_filter None body = Inr True"
| "peek_filter (Some t) body =
     (if t = [] then Inr True
      else (case json_loads_decode body of
              Inl e \<Rightarrow> (if e = JSONDecodeError then Inr False else Inl e)
            | Inr data \<Rightarrow>
                (case py_get data ''imei'' (JStr ''UNKNOWN'') of
                   Inl e \<Rightarrow> Inl e
                 | Inr imei \<Rightarrow> Inr (imei = JStr t))))"

record peek_state = io +
  messages_shown :: int
  messages_to_requeue :: "nat list"

text \<open>
  One pass through the body of \<open>for i in range(...)\<close> inside the \<open>try\<close>: it ends
  by falling through or \<open>continue\<close> (\<open>Next\<close>), by \<open>break\<close>, or by an exception.
\<close>

definition peek_body :: "string option \<Rightarrow> int \<Rightarrow> bool \<Rightarrow> nat \<Rightarrow> peek_state \<Rightarrow> peek_state flow" where
  "peek_body tgt limit show_json i st =
     (case basic_get (chan st) data_queue of
        (Inl e, ch') \<Rightarrow> Raise e (st\<lparr>chan := ch'\<rparr>)
      | (Inr None, ch') \<Rightarrow> Break (st\<lparr>chan := ch'\<rparr>)
      | (Inr (Some (tag, body)), ch') \<Rightarrow>
          (let st1 = st\<lparr>chan := ch', messages_to_requeue := messages_to_requeue st @ [tag]\<rparr>
           in case peek_filter tgt body of
                Inl e \<Rightarrow> Raise e st1
              | Inr False \<Rightarrow> Next st1
              | Inr True \<Rightarrow>
                  (case display_message (JInt (messages_shown st1 + 1)) body show_json of
                     (ls, Some e) \<Rightarrow> Raise e (st1\<lparr>out := out st1 @ ls\<rparr>)
                   | (ls, None) \<Rightarrow>
                       (let st2 = st1\<lparr>out := out st1 @ ls,
                                      messages_shown := messages_shown st1 + 1\<rparr>
                        in if messages_shown st2 \<ge> limit then Break st2 else Next st2))))"

text \<open>
  The \<open>finally\<close> block: \<open>for delivery_tag in reversed(messages_to_requeue)\<close>, each
  negative acknowledgment in its own \<open>try\<close>. The argument is the reversed list.
\<close>

fun requeue_all :: "nat list \<Rightarrow> channel \<times> line list \<Rightarrow> channel \<times> line list" where
  "requeue_all [] (ch, ls) = (ch, ls)"
| "requeue_all (t # ts) (ch, ls) =
     (case basic_nack ch t True of
        (Inl e, ch') \<Rightarrow>
          requeue_all ts (ch', ls @ [(DEBUG, ''Error requeuing message'', [JInt (int t), exn_str e])])
      | (Inr u, ch') \<Rightarrow> requeue_all ts (ch', ls))"

definition peek_messages :: "string option \<Rightarrow> int \<Rightarrow> bool \<Rightarrow> channel \<Rightarrow> channel \<times> line list" where
  "peek_messages target_imei limit show_json ch =
     (case queue_declare_passive (fst (ensure_connection ch)) data_queue of
        (Inl e, ch1) \<Rightarrow>
          (ch1, snd (ensure_connection ch) @ [(ERROR, ''Error peeking messages'', [exn_str e])])
      | (Inr (message_count, n_consumers), ch1) \<Rightarrow>
          (if message_count = 0
           then (ch1, snd (ensure_connection ch) @ [(INFO, ''No messages in queue to peek'', [])])
           else
             (let header =
                    snd (ensure_connection ch) @
                    (INFO, ''PEEKING AT MESSAGES'',
                       [JInt (min limit message_count), JInt message_count])
                    # (case target_imei of
                         None \<Rightarrow> []
                       | Some t \<Rightarrow> if t = [] then [] else [(INFO, ''Filtering for IMEI'', [JStr t])]);
                  (raised, st) =
                    for_range (peek_body target_imei limit show_json) 0
                      (nat (min (limit * 3) message_count))
                      \<lparr>chan = ch1, out = header, messages_shown = 0, messages_to_requeue = []\<rparr>;
                  (ch2, ls) = requeue_all (rev (messages_to_requeue st)) (chan st, out st)
              in case raised of
                   Some e \<Rightarrow> (ch2, ls @ [(ERROR, ''Error peeking messages'', [exn_str e])])
                 | None \<Rightarrow>
                     (ch2,
                      ls @ (case target_imei of
                              None \<Rightarrow> []
                            | Some t \<Rightarrow>
                                if t \<noteq> [] \<and> messages_shown st = 0
                                then [(INFO, ''No messages found for IMEI'', [JStr t])]
                                else [])))))"

section \<open>Browsing a command queue: \<open>list_queue_commands\<close>\<close>

record list_state = io +
  messages_l :: "(nat \<times> body) list"

text \<open>The first loop collects every message of the queue.\<close>

definition collect_body :: "string \<Rightarrow> nat \<Rightarrow> list_state \<Rightarrow> list_state flow" where
  "collect_body imei i st =
     (case basic_get (chan st) imei of
        (Inl e, ch') \<Rightarrow> Raise e (st\<lparr>chan := ch'\<rparr>)
      | (Inr None, ch') \<Rightarrow> Break (st\<lparr>chan := ch'\<rparr>)
      | (Inr (Some (tag, body)), ch') \<Rightarrow>
          Next (st\<lparr>chan := ch', messages_l := messages_l st @ [(tag, body)]\<rparr>))"

text \<open>The second loop shows them; its \<open>try\<close> catches \<open>json.JSONDecodeError\<close> only.\<close>

definition show_command :: "int \<Rightarrow> body \<Rightarrow> effect" where
  "show_command display_number body =
     (case json_loads_decode body of
        Inl e \<Rightarrow>
          (if e = JSONDecodeError
           then ([(PRINT, ''Raw message'', [JInt display_number, JStr (raw body)])], None)
           else ([], Some e))
      | Inr data \<Rightarrow>
          (case py_get data ''command'' (JStr ''Unknown'') of
             Inl e \<Rightarrow> ([], Some e)
           | Inr command \<Rightarrow>
          (case py_get data ''command_id'' (JStr ''N/A'') of
             Inl e \<Rightarrow> ([], Some e)
           | Inr command_id \<Rightarrow>
          (case py_get data ''timestamp'' (JStr ''N/A'') of
             Inl e \<Rightarrow> ([], Some e)
           | Inr timestamp \<Rightarrow>
          (case py_get data ''source'' (JStr ''N/A'') of
             Inl e \<Rightarrow> ([], Some e)
           | Inr source \<Rightarrow>
               ([(PRINT, ''Command'', [JInt display_number, command]),
                 (PRINT, ''ID'', [command_id]),
                 (PRINT, ''Timestamp'', [timestamp]),
                 (PRINT, ''Source'', [source])], None))))))"

definition show_body :: "int \<Rightarrow> nat \<Rightarrow> nat \<times> body \<Rightarrow> list_state \<Rightarrow> list_state flow" where
  "show_body start_index idx m st =
     (case show_command (start_index + int idx) (snd m) of
        (ls, Some e) \<Rightarrow> Raise e (st\<lparr>out := out st @ ls\<rparr>)
      | (ls, None) \<Rightarrow> Next (st\<lparr>out := out st @ ls\<rparr>))"

text \<open>
  The third loop, \<open>for method_frame, body in reversed(messages)\<close>, puts the messages
  back; \<open>basic_nack\<close> requeues by default. It comes after the second loop in the same
  \<open>try\<close>, with no \<open>finally\<close>.
\<close>

definition nack_body :: "nat \<Rightarrow> nat \<times> body \<Rightarrow> list_state \<Rightarrow> list_state flow" where
  "nack_body idx m st =
     (case basic_nack (chan st) (fst m) True of
        (Inl e, ch') \<Rightarrow> Raise e (st\<lparr>chan := ch'\<rparr>)
      | (Inr u, ch') \<Rightarrow> Next (st\<lparr>chan := ch'\<rparr>))"

definition list_queue_commands :: "string \<Rightarrow> channel \<Rightarrow> channel \<times> line list" where
  "list_queue_commands imei ch =
     (case queue_declare_passive ch imei of
        (Inl e, ch1) \<Rightarrow> (ch1, [(ERROR, ''Error listing queue commands'', [exn_str e])])
      | (Inr (message_count, n_consumers), ch1) \<Rightarrow>
          (if message_count = 0 then (ch1, [(PRINT, ''Command queue is empty'', [JStr imei])])
           else
             (let show_limit = 10;
                  show_all = (message_count \<le> show_limit);
                  header =
                    (if show_all
                     then [(PRINT, ''ALL COMMANDS IN QUEUE FOR IMEI'', [JStr imei]),
                           (PRINT, ''Total commands'', [JInt message_count])]
                     else [(PRINT, ''LAST COMMANDS IN QUEUE FOR IMEI'', [JInt show_limit, JStr imei]),
                           (PRINT, ''Total commands (showing last only)'',
                              [JInt message_count, JInt show_limit]),
                           (PRINT, ''Use Purge Queue to clear old commands'', [])]);
                  (raised1, st1) =
                    for_range (collect_body imei) 0 (nat message_count)
                      \<lparr>chan = ch1, out = header, messages_l = []\<rparr>
              in case raised1 of
                   Some e \<Rightarrow>
                     (chan st1, out st1 @ [(ERROR, ''Error listing queue commands'', [exn_str e])])
                 | None \<Rightarrow>
                     (let messages_to_show =
                            (if \<not> show_all
                             then drop (length (messages_l st1) - nat show_limit) (messages_l st1)
                             else messages_l st1);
                          start_index =
                            (if \<not> show_all
                             then message_count - int (length messages_to_show) + 1 else 1);
                          (raised2, st2) = for_each (show_body start_index) 0 messages_to_show st1
                      in case raised2 of
                           Some e \<Rightarrow>
                             (chan st2,
                              out st2 @ [(ERROR, ''Error listing queue commands'', [exn_str e])])
                         | None \<Rightarrow>
                             (let (raised3, st3) = for_each nack_body 0 (rev (messages_l st2)) st2
                              in case raised3 of
                                   Some e \<Rightarrow>
                                     (chan st3,
                                      out st3 @ [(ERROR, ''Error listing queue commands'',
                                                  [exn_str e])])
                                 | None \<Rightarrow> (chan st3, out st3))))))"

section \<open>Inspecting a queue by name: \<open>inspect_queue_by_name\<close>\<close>

text \<open>\<open>key in data\<close> on a decoded value.\<close>

fun py_in :: "string \<Rightarrow> json \<Rightarrow> exn + bool" where
  "py_in k (JDict d) = Inr (map_of d k \<noteq> None)"
| "py_in k (JList xs) = Inr (JStr k \<in> set xs)"
| "py_in k (JStr s) = Inr (sublist k s)"
| "py_in k _ = Inl TypeError"

definition show_if_present :: "string \<Rightarrow> string \<Rightarrow> json \<Rightarrow> effect" where
  "show_if_present k label data =
     (case py_in k data of
        Inl e \<Rightarrow> ([], Some e)
      | Inr False \<Rightarrow> ([], None)
      | Inr True \<Rightarrow>
          (case py_get data k JNull of
             Inl e \<Rightarrow> ([], Some e)
           | Inr v \<Rightarrow> ([(PRINT, label, [v])], None)))"

definition show_sample :: "int \<Rightarrow> body \<Rightarrow> effect" where
  "show_sample number body =
     (case json_loads_decode body of
        Inl e \<Rightarrow>
          (if e = JSONDecodeError
           then ([(PRINT, ''Raw message preview'', [JInt number, JStr (take 100 (raw body))]),
                  (PRINT, ''Size'', [JInt (int (length (raw body)))])], None)
           else ([], Some e))
      | Inr data \<Rightarrow>
          (case py_get data ''type'' (JStr ''Unknown'') of
             Inl e \<Rightarrow> ([], Some e)
           | Inr ty \<Rightarrow>
               then_do ([(PRINT, ''Type'', [JInt number, ty])], None)
              (then_do (show_if_present ''imei'' ''IMEI'' data)
              (then_do (show_if_present ''command'' ''Command'' data)
              (then_do (show_if_present ''timestamp'' ''Timestamp'' data)
                       ([(PRINT, ''Size'', [JInt (int (length (raw body)))])], None))))))"

record inspect_state = io +
  messages_shown' :: int

text \<open>
  The loop fetches a message, shows it and puts it back at once, before the next fetch;
  the negative acknowledgment is the last statement of the loop body, outside its
  \<open>try\<close>.
\<close>

definition inspect_body :: "string \<Rightarrow> nat \<Rightarrow> inspect_state \<Rightarrow> inspect_state flow" where
  "inspect_body queue_name i st =
     (case basic_get (chan st) queue_name of
        (Inl e, ch') \<Rightarrow> Raise e (st\<lparr>chan := ch'\<rparr>)
      | (Inr None, ch') \<Rightarrow> Break (st\<lparr>chan := ch'\<rparr>)
      | (Inr (Some (tag, body)), ch') \<Rightarrow>
          (case show_sample (int i + 1) body of
             (ls, Some e) \<Rightarrow> Raise e (st\<lparr>chan := ch', out := out st @ ls\<rparr>)
           | (ls, None) \<Rightarrow>
               (case basic_nack ch' tag True of
                  (Inl e, ch'') \<Rightarrow>
                    Raise e (st\<lparr>chan := ch'', out := out st @ ls,
                               messages_shown' := messages_shown' st + 1\<rparr>)
                | (Inr u, ch'') \<Rightarrow>
                    Next (st\<lparr>chan := ch'', out := out st @ ls,
                            messages_shown' := messages_shown' st + 1\<rparr>))))"

definition inspect_queue_by_name :: "string \<Rightarrow> channel \<Rightarrow> bool \<times> channel \<times> line list" where
  "inspect_queue_by_name queue_name ch =
     (let banner = snd (ensure_connection ch) @ [(PRINT, ''INSPECTING QUEUE'', [JStr queue_name])];
          not_found = (\<lambda>e. [(PRINT, ''Queue not found or not accessible'', [JStr queue_name]),
                            (PRINT, ''Error'', [exn_str e])])
      in case queue_declare_passive (fst (ensure_connection ch)) queue_name of
           (Inl e, ch1) \<Rightarrow> (False, ch1, banner @ not_found e)
         | (Inr (message_count, n_consumers), ch1) \<Rightarrow>
             (let info = banner @
                    [(PRINT, ''Queue Name'', [JStr queue_name]),
                     (PRINT, ''Messages in Queue'', [JInt message_count]),
                     (PRINT, ''Active Consumers'', [JInt n_consumers]),
                     (if n_consumers > 0 then (PRINT, ''Status: ACTIVE (has consumers)'', [])
                      else (PRINT, ''Status: INACTIVE (no consumers)'', []))]
              in if message_count > 0 then
                   (let (raised, st) =
                          for_range (inspect_body queue_name) 0 (nat (min 3 message_count))
                            \<lparr>chan = ch1,
                             out = info @ [(PRINT, ''Backlog: messages waiting'', [JInt message_count]),
                                           (PRINT, ''SAMPLE MESSAGES (first 3)'', [])],
                             messages_shown' = 0\<rparr>
                    in case raised of
                         Some e \<Rightarrow> (False, chan st, out st @ not_found e)
                       | None \<Rightarrow>
                           (True, chan st,
                            out st @ (if message_count > 3
                                      then [(PRINT, ''and more messages'', [JInt (message_count - 3)])]
                                      else [])))
                 else (True, ch1, info @ [(PRINT, ''Backlog: Empty queue'', [])])))"

section \<open>Real-time monitoring: the message callback\<close>

text \<open>
  \<open>message_callback(ch, method, properties, body)\<close>, defined inside
  \<open>monitor_realtime\<close>: the delivery tag and the body are what the broker pushed. The
  result says whether the callback raised.
\<close>

definition message_callback ::
    "string option \<Rightarrow> bool \<Rightarrow> nat \<Rightarrow> body \<Rightarrow> channel \<Rightarrow> exn option \<times> channel \<times> line list" where
  "message_callback target_imei show_json delivery_tag body ch =
     (let ack = (\<lambda>ls. case basic_ack ch delivery_tag of
                         (Inl e, ch') \<Rightarrow> (Some e, ch', ls)
                       | (Inr u, ch') \<Rightarrow> (None, ch', ls));
          show = (case display_message (JStr ''REALTIME'') body show_json of
                    (ls, Some e) \<Rightarrow> (Some e, ch, (INFO, ''NEW MESSAGE DETECTED!'', []) # ls)
                  | (ls, None) \<Rightarrow> ack ((INFO, ''NEW MESSAGE DETECTED!'', []) # ls))
      in case target_imei of
           None \<Rightarrow> show
         | Some t \<Rightarrow>
             (if t = [] then show
              else (case json_loads_decode body of
                      Inl e \<Rightarrow> (if e = JSONDecodeError then ack [] else (Some e, ch, []))
                    | Inr data \<Rightarrow>
                        (case py_get data ''imei'' (JStr ''UNKNOWN'') of
                           Inl e \<Rightarrow> (Some e, ch, [])
                         | Inr imei \<Rightarrow> if imei \<noteq> JStr t then ack [] else show))))"

section \<open>Sending a command: \<open>send_command\<close>\<close>

text \<open>
  \<open>json.dumps(message)\<close> for the command message, a dict whose values are all strings:
  the text Python writes (keys in insertion order, \<open>", "\<close> and \<open>": "\<close> as separators,
  every character outside the printable ASCII range escaped), together with the value that
  \<open>json.loads\<close> gives back for it. Strings are sequences of code points below 256.
\<close>

definition hex_digit :: "nat \<Rightarrow> char" where
  "hex_digit n = ''0123456789abcdef'' ! (n mod 16)"

definition json_escape :: "char \<Rightarrow> string" where
  "json_escape c =
     (if c = CHR 0x22 then [CHR 0x5C, CHR 0x22]
      else if c = CHR 0x5C then [CHR 0x5C, CHR 0x5C]
      else if c = CHR 0x0A then [CHR 0x5C, CHR ''n'']
      else if c = CHR 0x0D then [CHR 0x5C, CHR ''r'']
      else if c = CHR 0x09 then [CHR 0x5C, CHR ''t'']
      else if c = CHR 0x08 then [CHR 0x5C, CHR ''b'']
      else if c = CHR 0x0C then [CHR 0x5C, CHR ''f'']
      else if (of_char c :: nat) < 32 \<or> (of_char c :: nat) > 126
      then [CHR 0x5C, CHR ''u'', CHR ''0'', CHR ''0'',
            hex_digit (of_char c div 16), hex_digit (of_char c mod 16)]
      else [c])"

definition json_quote :: "string \<Rightarrow> string" where
  "json_quote s = CHR 0x22 # concat (map json_escape s) @ [CHR 0x22]"

fun join :: "string \<Rightarrow> string list \<Rightarrow> string" where
  "join sep [] = []"
| "join sep [x] = x"
| "join sep (x # y # ys) = x @ sep @ join sep (y # ys)"

definition json_dumps :: "(string \<times> string) list \<Rightarrow> body" where
  "json_dumps message =
     Body (''{'' @ join '', '' (map (\<lambda>(k, v). json_quote k @ '': '' @ json_quote v) message) @ ''}'')
          (Value (JDict (map (\<lambda>(k, v). (k, JStr v)) message)))"

text \<open>
  \<open>send_command(imei, command, command_id)\<close>. What the function reads from its
  environment is passed in: \<open>new_uuid\<close> is \<open>str(uuid.uuid4())\<close> and \<open>now\<close> is
  \<open>str(int(time.time()))\<close>.
\<close>

definition command_message :: "string \<Rightarrow> string \<Rightarrow> string \<Rightarrow> (string \<times> string) list" where
  "command_message command_id command now =
     [(''command_id'', command_id), (''command'', command),
      (''timestamp'', now), (''source'', ''command_sender'')]"

definition send_command ::
    "string \<Rightarrow> string \<Rightarrow> string option \<Rightarrow> string \<Rightarrow> string \<Rightarrow> channel
     \<Rightarrow> bool \<times> channel \<times> line list" where
  "send_command imei command command_id new_uuid now ch =
     (let command_id' = (case command_id of None \<Rightarrow> new_uuid | Some c \<Rightarrow> c);
          message = command_message command_id' command now
      in case queue_declare ch imei True of
           (Inl e, ch1) \<Rightarrow> (False, ch1, [(ERROR, ''Failed to send command'', [exn_str e])])
         | (Inr info, ch1) \<Rightarrow>
             (case basic_publish ch1 imei (json_dumps message) True of
                (Inl e, ch2) \<Rightarrow> (False, ch2, [(ERROR, ''Failed to send command'', [exn_str e])])
              | (Inr u, ch2) \<Rightarrow>
                  (let sent = [(INFO, ''Command sent successfully!'', []),
                               (INFO, ''IMEI'', [JStr imei]),
                               (INFO, ''Command'', [JStr command]),
                               (INFO, ''Command ID'', [JStr command_id'])]
                   in case queue_declare_passive ch2 imei of
                        (Inl e, ch3) \<Rightarrow>
                          (False, ch3, sent @ [(ERROR, ''Failed to send command'', [exn_str e])])
                      | (Inr (message_count, n_consumers), ch3) \<Rightarrow>
                          (True, ch3,
                           sent @ [(INFO, ''Queue status: messages in queue'',
                                    [JInt message_count])]))))"

section \<open>Queue discovery: \<open>_discover_queues_smart\<close>\<close>

text \<open>
  A discovered queue is the dict with the keys \<open>name\<close>, \<open>messages\<close>, \<open>consumers\<close>,
  \<open>durable\<close> and \<open>auto_delete\<close>.
\<close>

record snapshot =
  name :: string
  messages :: int
  consumers :: int
  durable :: bool
  auto_delete :: bool

text \<open>
  The HTTP request to the management API is modelled by its outcome, which is an input
  of the discovery: no reply (the \<open>requests\<close> library is missing, or the request
  raised), or a reply with its status code and, if its body is the JSON it should be, the
  list of queue objects. The fields of a queue object may be absent; when present they have
  the types of the API. The URL is computed from \<open>rabbitmq_url\<close> by string operations
  that do not raise and is not modelled.
\<close>

record api_row =
  row_name :: "string option"
  row_messages :: "int option"
  row_consumers :: "int option"
  row_durable :: "bool option"
  row_auto_delete :: "bool option"

datatype mgmt_reply = NoReply | Reply int "api_row list option"

definition of_row :: "api_row \<Rightarrow> snapshot" where
  "of_row queue =
     \<lparr>name = (case row_name queue of None \<Rightarrow> ''Unknown'' | Some n \<Rightarrow> n),
      messages = (case row_messages queue of None \<Rightarrow> 0 | Some m \<Rightarrow> m),
      consumers = (case row_consumers queue of None \<Rightarrow> 0 | Some c \<Rightarrow> c),
      durable = (case row_durable queue of None \<Rightarrow> False | Some d \<Rightarrow> d),
      auto_delete = (case row_auto_delete queue of None \<Rightarrow> False | Some a \<Rightarrow> a)\<rparr>"

text \<open>Method 1, the body of the first \<open>try\<close>: the rows, or the exception raised.\<close>

fun management_api :: "mgmt_reply \<Rightarrow> exn + api_row list" where
  "management_api NoReply = Inl RequestException"
| "management_api (Reply status_code rows) =
     (if status_code = 200
      then (case rows of None \<Rightarrow> Inl ValueError | Some queues_data \<Rightarrow> Inr queues_data)
      else Inl (StatusException status_code))"

definition system_queues :: "string list" where
  "system_queues =
     [data_queue, ''device_commands'', ''system_alerts'', ''error_queue'',
      ''dead_letter_queue'', ''audit_log'', ''notifications'']"

record probe_state = io +
  discovered_queues :: "string set"
  queues_found :: "snapshot list"

text \<open>
  Method 2: \<open>for queue_candidate in check_queues\<close>, where \<open>check_queues\<close> is a copy of
  \<open>system_queues\<close>; a candidate whose passive declaration raises is skipped.
\<close>

definition probe_body :: "nat \<Rightarrow> string \<Rightarrow> probe_state \<Rightarrow> probe_state flow" where
  "probe_body i queue_candidate st =
     (if queue_candidate \<notin> discovered_queues st
      then (case queue_declare_passive (chan st) queue_candidate of
              (Inl e, ch') \<Rightarrow> Next (st\<lparr>chan := ch'\<rparr>)
            | (Inr (message_count, n_consumers), ch') \<Rightarrow>
                Next (st\<lparr>chan := ch',
                        discovered_queues := insert queue_candidate (discovered_queues st),
                        queues_found := queues_found st @
                          [\<lparr>name = queue_candidate, messages = message_count,
                            consumers = n_consumers, durable = True, auto_delete = False\<rparr>]\<rparr>))
      else Next st)"

definition discover_queues_smart :: "mgmt_reply \<Rightarrow> channel \<Rightarrow> snapshot list \<times> channel \<times> line list" where
  "discover_queues_smart mgmt ch =
     (case management_api mgmt of
        Inr queues_data \<Rightarrow>
          (map of_row queues_data, ch,
           [(INFO, ''Management API available - found queues'', [JInt (int (length queues_data))])])
      | Inl e \<Rightarrow>
          (let (raised, st) =
                 for_each probe_body 0 system_queues
                   \<lparr>chan = ch,
                    out = [(DEBUG, ''Management API not available'', [exn_str e]),
                           (INFO, ''Management API not available, using smart fallback method...'', []),
                           (INFO, ''To see ALL queues, install requests library'', []),
                           (INFO, ''And enable RabbitMQ management plugin on the server'', []),
                           (INFO, ''Scanning for active IMEI queues...'', [])],
                    discovered_queues = {}, queues_found = []\<rparr>
           in (queues_found st, chan st,
               out st @
               (if queues_found st = []
                then [(WARNING,
                       ''No queues discovered. Management API recommended for full visibility.'', [])]
                else [(INFO, ''Found queues using fallback method'',
                         [JInt (int (length (queues_found st)))]),
                      (WARNING,
                       ''Note: Fallback method may not show all queues. Some queues might be missing.'',
                       [])]))))"

section \<open>Listing queues: \<open>is_imei_format\<close> and \<open>list_all_queues\<close>\<close>

text \<open>
  \<open>str.isdigit\<close> and \<open>str.lower\<close> on code points below 256: besides the ASCII digits
  the superscripts two, three and one are digits for Python, and the upper-case letters are
  A to Z and the accented capitals from 192 to 222 except the multiplication sign.
\<close>

definition is_digit_char :: "char \<Rightarrow> bool" where
  "is_digit_char c =
     (let n = (of_char c :: nat) in (48 \<le> n \<and> n \<le> 57) \<or> n = 178 \<or> n = 179 \<or> n = 185)"

definition py_isdigit :: "string \<Rightarrow> bool" where
  "py_isdigit s = (s \<noteq> [] \<and> list_all is_digit_char s)"

definition lower_char :: "char \<Rightarrow> char" where
  "lower_char c =
     (let n = (of_char c :: nat)
      in if (65 \<le> n \<and> n \<le> 90) \<or> (192 \<le> n \<and> n \<le> 222 \<and> n \<noteq> 215)
         then char_of (n + 32) else c)"

definition py_lower :: "string \<Rightarrow> string" where
  "py_lower s = map lower_char s"

definition is_imei_format :: "string \<Rightarrow> bool" where
  "is_imei_format queue_name = (py_isdigit queue_name \<and> length queue_name = 15)"

text \<open>\<open>xs.sort(key=key, reverse=True)\<close>: stable, equal keys keep their order.\<close>

definition sort_reverse :: "('a \<Rightarrow> 'k::linorder) \<Rightarrow> 'a list \<Rightarrow> 'a list" where
  "sort_reverse key xs = rev (sort_key key (rev xs))"

definition apply_filter :: "string \<Rightarrow> bool \<Rightarrow> snapshot list \<Rightarrow> snapshot list" where
  "apply_filter filter_type show_active_only qs =
     (if filter_type = ''non-imei'' then filter (\<lambda>q. \<not> is_imei_format (name q)) qs
      else if filter_type = ''imei-only'' then filter (\<lambda>q. is_imei_format (name q)) qs
      else if filter_type = ''active'' \<or> show_active_only
      then filter (\<lambda>q. messages q > 0 \<or> consumers q > 0) qs
      else qs)"

section \<open>Queue status classification\<close>

text \<open>
  The status column of \<open>list_all_queues\<close> is computed by an if/elif chain over the
  \<open>consumers\<close> and \<open>messages\<close> counts of a queue. Python integers are unbounded, so
  both counts are \<open>int\<close>.
\<close>

datatype status = BUSY | ACTIVE | BACKLOG | IDLE

definition queue_status :: "int \<Rightarrow> int \<Rightarrow> status" where
  "queue_status m c =
     (if c > 0 \<and> m > 0 then BUSY
      else if c > 0 then ACTIVE
      else if m > 0 then BACKLOG
      else IDLE)"

fun status_text :: "status \<Rightarrow> string" where
  "status_text BUSY = ''BUSY''"
| "status_text ACTIVE = ''ACTIVE''"
| "status_text BACKLOG = ''BACKLOG''"
| "status_text IDLE = ''IDLE''"

text \<open>One line of the table: the name cut to 29 characters, the counts and the status.\<close>

definition queue_row :: "snapshot \<Rightarrow> line" where
  "queue_row q =
     (PRINT, ''queue'',
      [JStr (if length (name q) > 29 then take 29 (name q) else name q),
       JInt (messages q), JInt (consumers q),
       JStr (status_text (queue_status (messages q) (consumers q))),
       JStr (if durable q then ''Yes'' else ''No'')])"

definition list_all_queues :: "string \<Rightarrow> bool \<Rightarrow> mgmt_reply \<Rightarrow> channel \<Rightarrow> channel \<times> line list" where
  "list_all_queues filter_type show_active_only mgmt ch =
     (let title =
            (if filter_type = ''non-imei'' then (PRINT, ''NON-IMEI QUEUES ON RABBITMQ SERVER'', [])
             else if filter_type = ''imei-only'' then (PRINT, ''IMEI QUEUES ON RABBITMQ SERVER'', [])
             else if filter_type = ''active'' then (PRINT, ''ACTIVE QUEUES ON RABBITMQ SERVER'', [])
             else (PRINT, ''ALL QUEUES ON RABBITMQ SERVER'', []));
          reopened = snd (ensure_connection ch);
          (discovered, ch1, ls) = discover_queues_smart mgmt (fst (ensure_connection ch))
      in if discovered = []
         then (ch1, reopened @ title # ls @ [(PRINT, ''No queues found or accessible'', []),
                                             (PRINT, ''TROUBLESHOOTING'', [])])
         else
           (let qs = apply_filter filter_type show_active_only discovered
            in if qs = []
               then (ch1, reopened @ title # ls @
                       [(PRINT, ''No queues found or accessible'',
                         [JStr (if filter_type = ''non-imei'' then '' (no non-IMEI queues found)''
                                else if filter_type = ''imei-only'' then '' (no IMEI queues found)''
                                else if filter_type = ''active'' then '' (no active queues found)''
                                else [])])])
               else
                 (let sorted =
                        sort_reverse
                          (\<lambda>x. (consumers x > 0, messages x > 0, messages x, consumers x)) qs
                  in (ch1, reopened @ title # ls @
                        (PRINT, ''Found queues'', [JInt (int (length sorted))])
                        # map queue_row sorted @
                        [(PRINT, ''Active queues (with consumers)'',
                            [JInt (int (length (filter (\<lambda>q. consumers q > 0) sorted)))]),
                         (PRINT, ''Queues with pending messages'',
                            [JInt (int (length (filter (\<lambda>q. messages q > 0) sorted)))]),
                         (PRINT, ''Total messages across all queues'',
                            [JInt (sum_list (map messages sorted))])]))))"

section \<open>Inspecting by partial name\<close>

definition find_queues_by_partial_name ::
    "string \<Rightarrow> mgmt_reply \<Rightarrow> channel \<Rightarrow> snapshot list \<times> channel \<times> line list" where
  "find_queues_by_partial_name search_term mgmt ch =
     (let search_term_lower = py_lower search_term;
          (all_queues, ch1, ls) = discover_queues_smart mgmt (fst (ensure_connection ch))
      in (filter (\<lambda>q. sublist search_term_lower (py_lower (name q))) all_queues, ch1,
          snd (ensure_connection ch) @ ls))"

text \<open>
  \<open>int(choice)\<close> on what the operator typed, already stripped and lower-cased: an
  optional sign and decimal digits, which single underscores may separate. \<open>None\<close> is
  ValueError.
\<close>

definition digit_val :: "char \<Rightarrow> nat option" where
  "digit_val c =
     (let n = (of_char c :: nat) in if 48 \<le> n \<and> n \<le> 57 then Some (n - 48) else None)"

fun parse_digits :: "string \<Rightarrow> nat \<Rightarrow> nat option" where
  "parse_digits [] acc = Some acc"
| "parse_digits (c # cs) acc =
     (if c = CHR ''_''
      then (case cs of
              [] \<Rightarrow> None
            | d # ds \<Rightarrow> if digit_val d = None then None else parse_digits cs acc)
      else (case digit_val c of
              None \<Rightarrow> None
            | Some v \<Rightarrow> parse_digits cs (10 * acc + v)))"

definition parse_unsigned :: "string \<Rightarrow> nat option" where
  "parse_unsigned s =
     (case s of
        [] \<Rightarrow> None
      | c # cs \<Rightarrow> if digit_val c = None then None else parse_digits s 0)"

definition py_int :: "string \<Rightarrow> int option" where
  "py_int s =
     (case s of
        [] \<Rightarrow> None
      | c # cs \<Rightarrow>
          if c = CHR ''-'' then map_option (\<lambda>n. - int n) (parse_unsigned cs)
          else if c = CHR ''+'' then map_option int (parse_unsigned cs)
          else map_option int (parse_unsigned s))"

text \<open>One line of the disambiguation table, numbered from 1.\<close>

definition match_row :: "nat \<Rightarrow> snapshot \<Rightarrow> line" where
  "match_row i q =
     (PRINT, ''match'',
      [JInt (int i), JStr (if length (name q) > 29 then take 29 (name q) else name q),
       JInt (messages q), JInt (consumers q),
       JStr (if consumers q > 0 then ''ACTIVE'' else ''IDLE'')])"

text \<open>The answer \<open>a\<close>: every matching queue is inspected in turn.\<close>

definition inspect_each :: "nat \<Rightarrow> nat \<Rightarrow> snapshot \<Rightarrow> io \<Rightarrow> io flow" where
  "inspect_each n i q st =
     (case inspect_queue_by_name (name q) (chan st) of
        (ok, ch', ls) \<Rightarrow>
          Next \<lparr>chan = ch',
                out = out st @ (PRINT, ''QUEUE of'', [JInt (int i + 1), JInt (int n)]) # ls\<rparr>)"

text \<open>
  \<open>inspect_queues_by_partial_name(search_term)\<close>; \<open>choice\<close> is the answer the operator
  gives if asked which of several matches to inspect.
\<close>

definition inspect_queues_by_partial_name ::
    "string \<Rightarrow> string \<Rightarrow> mgmt_reply \<Rightarrow> channel \<Rightarrow> bool \<times> channel \<times> line list" where
  "inspect_queues_by_partial_name search_term choice mgmt ch =
     (let banner = (PRINT, ''SEARCHING FOR QUEUES CONTAINING'', [JStr search_term]);
          (matching_queues, ch1, ls) = find_queues_by_partial_name search_term mgmt ch
      in if matching_queues = []
         then (False, ch1,
               banner # ls @
               [(PRINT, ''No queues found containing'', [JStr search_term]),
                (PRINT, ''Tip: Search is case-insensitive. Try broader terms'', [])])
         else
           (let sorted = sort_reverse messages matching_queues
            in case sorted of
                 [q] \<Rightarrow>
                   (case inspect_queue_by_name (name q) ch1 of
                      (ok, ch2, ls2) \<Rightarrow>
                        (ok, ch2,
                         banner # ls @ (PRINT, ''Found 1 matching queue'', [JStr (name q)]) # ls2))
               | _ \<Rightarrow>
                   (let table =
                          banner # ls @
                          (PRINT, ''Found matching queues'', [JInt (int (length sorted))])
                          # map (\<lambda>(i, q). match_row (Suc i) q) (enumerate 0 sorted) @
                          [(PRINT, ''Options: a = all, number = one queue, 0 = cancel'',
                            [JInt (int (length sorted))])]
                    in if choice = ''0'' then (False, ch1, table)
                       else if choice = ''a''
                       then (case for_each (inspect_each (length sorted)) 0 sorted
                                    \<lparr>chan = ch1, out = table\<rparr> of
                               (raised, st) \<Rightarrow> (True, chan st, out st))
                       else
                         (case py_int choice of
                            None \<Rightarrow>
                              (False, ch1, table @ [(PRINT, ''Invalid input. Please enter a number.'', [])])
                          | Some k \<Rightarrow>
                              (let queue_index = k - 1
                               in if 0 \<le> queue_index \<and> queue_index < int (length sorted)
                                  then (case inspect_queue_by_name
                                               (name (sorted ! nat queue_index)) ch1 of
                                          (ok, ch2, ls2) \<Rightarrow>
                                            (ok, ch2,
                                             table @ (PRINT, ''INSPECTING'',
                                                      [JStr (name (sorted ! nat queue_index))]) # ls2))
                                  else (False, ch1,
                                        table @ [(PRINT, ''Invalid choice'',
                                                  [JInt (int (length sorted))])]))))))"

text \<open>
  Option 5 of the queue operations menu (in \<open>show_queue_operations_menu\<close>): the search
  term, stripped, is first tried as an exact queue name. When that declaration is refused
  the channel is closed, and \<open>find_queues_by_partial_name\<close> opens a new one.
\<close>

definition queue_operations_inspect ::
    "string \<Rightarrow> string \<Rightarrow> mgmt_reply \<Rightarrow> channel \<Rightarrow> channel \<times> line list" where
  "queue_operations_inspect search_term choice mgmt ch =
     (let tips = (\<lambda>success.
                    if success then []
                    else [(PRINT, ''Tip: Use List Active Queues to see available queues'', []),
                          (PRINT, ''Try broader search terms'', [])])
      in if search_term = [] then (ch, [(PRINT, ''No search term provided'', [])])
         else (case queue_declare_passive (fst (ensure_connection ch)) search_term of
                 (Inr info, ch1) \<Rightarrow>
                   (case inspect_queue_by_name search_term ch1 of
                      (success, ch2, ls) \<Rightarrow>
                        (ch2,
                         snd (ensure_connection ch) @
                         (PRINT, ''Found exact match'', [JStr search_term]) # ls @ tips success))
               | (Inl e, ch1) \<Rightarrow>
                   (case inspect_queues_by_partial_name search_term choice mgmt ch1 of
                      (success, ch2, ls) \<Rightarrow>
                        (ch2,
                         snd (ensure_connection ch) @
                         (PRINT, ''No exact match, searching for partial matches...'',
                          [JStr search_term]) # ls @ tips success))))"

section \<open>Notions used to state and prove the properties\<close>

text \<open>
  \<open>same_broker\<close> compares what other clients of the broker can observe: the queues with
  their messages, and the messages held unacknowledged; \<open>same_channel\<close> also compares
  whether the channel is open. \<open>queue_depth\<close> is the number of
  ready messages of a queue, \<open>got_calls\<close> the successful fetches that handed out the
  given delivery tags, and \<open>nack_all\<close> the channel after requeueing a list of tags in
  order. \<open>peek_inv\<close> holds between two passes of the loop of \<open>peek_messages\<close> and
  \<open>peek_post\<close> when the loop is left.
\<close>

fun state_of :: "'s flow \<Rightarrow> 's" where
  "state_of (Next s) = s"
| "state_of (Break s) = s"
| "state_of (Raise e s) = s"

fun is_next :: "'s flow \<Rightarrow> bool" where
  "is_next (Next s) = True"
| "is_next _ = False"

definition same_broker :: "channel \<Rightarrow> channel \<Rightarrow> bool" where
  "same_broker c c' \<longleftrightarrow> queues c = queues c' \<and> unacked c = unacked c'"

definition same_channel :: "channel \<Rightarrow> channel \<Rightarrow> bool" where
  "same_channel c c' \<longleftrightarrow> same_broker c c' \<and> is_open c = is_open c'"

definition queue_depth :: "channel \<Rightarrow> string \<Rightarrow> int" where
  "queue_depth ch q = (case queues ch q of None \<Rightarrow> 0 | Some qu \<Rightarrow> int (length (msgs qu)))"

fun nack_all :: "nat list \<Rightarrow> channel \<Rightarrow> channel" where
  "nack_all [] ch = ch"
| "nack_all (t # ts) ch = nack_all ts (snd (basic_nack ch t True))"

definition got_calls :: "nat list \<Rightarrow> call list" where
  "got_calls ts = map (\<lambda>t. Get data_queue (Some t)) ts"

definition peek_inv :: "string option \<Rightarrow> int \<Rightarrow> channel \<Rightarrow> nat \<Rightarrow> peek_state \<Rightarrow> bool" where
  "peek_inv tgt limit c0 k t \<longleftrightarrow>
     calls (chan t) = calls c0 @ got_calls (messages_to_requeue t)
   \<and> length (messages_to_requeue t) \<le> k
   \<and> queue_depth (chan t) data_queue + int (length (messages_to_requeue t)) = queue_depth c0 data_queue
   \<and> same_channel (nack_all (rev (messages_to_requeue t)) (chan t)) c0
   \<and> (messages_to_requeue t = [] \<or> is_open (chan t) \<and> queues (chan t) data_queue \<noteq> None)
   \<and> (filtering tgt \<or> messages_shown t = int (length (messages_to_requeue t))
         \<and> (messages_to_requeue t = [] \<or> messages_shown t < limit))"

definition peek_post :: "string option \<Rightarrow> int \<Rightarrow> channel \<Rightarrow> nat \<Rightarrow> peek_state \<Rightarrow> bool" where
  "peek_post tgt limit c0 n t \<longleftrightarrow>
     (\<exists>tail. calls (chan t) = calls c0 @ got_calls (messages_to_requeue t) @ tail
        \<and> (tail = [] \<or> tail = [Get data_queue None]))
   \<and> length (messages_to_requeue t) \<le> n
   \<and> int (length (messages_to_requeue t)) \<le> queue_depth c0 data_queue
   \<and> same_broker (nack_all (rev (messages_to_requeue t)) (chan t)) c0
   \<and> (filtering tgt \<or> int (length (messages_to_requeue t)) \<le> max 1 limit)"

text \<open>
  \<open>probed ch q\<close> is the entry that the fallback discovery makes for the candidate
  \<open>q\<close> when its passive declaration succeeds: the counts of the queue, with the flags
  the fallback fills in. There is none if the queue does not exist.
\<close>

definition probed :: "channel \<Rightarrow> string \<Rightarrow> snapshot option" where
  "probed ch q =
     (case queues ch q of
        None \<Rightarrow> None
      | Some qu \<Rightarrow>
          Some \<lparr>name = q, messages = int (length (msgs qu)), consumers = int (consumer_count qu),
                durable = True, auto_delete = False\<rparr>)"

text \<open>
  A reply of the management API and a broker for the scenarios: three device queues whose
  names contain \<open>3503\<close> and the data queue; on the broker, the first device queue holds
  two commands.
\<close>

definition example_reply :: mgmt_reply where
  "example_reply =
     Reply 200 (Some
       [\<lparr>row_name = Some ''350317177240177'', row_messages = Some 2, row_consumers = Some 0,
          row_durable = Some True, row_auto_delete = Some False\<rparr>,
        \<lparr>row_name = Some ''device_tcp_data'', row_messages = Some 5, row_consumers = Some 1,
          row_durable = Some True, row_auto_delete = Some False\<rparr>,
        \<lparr>row_name = Some ''350317177240178'', row_messages = Some 7, row_consumers = Some 1,
          row_durable = Some True, row_auto_delete = Some False\<rparr>,
        \<lparr>row_name = Some ''350317177240179'', row_messages = Some 0, row_consumers = Some 0,
          row_durable = Some True, row_auto_delete = Some False\<rparr>])"

definition example_broker :: channel where
  "example_broker =
     \<lparr>queues =
        [''350317177240177'' \<mapsto>
           \<lparr>msgs = [json_dumps (command_message ''c1'' ''getinfo'' ''1700000000''),
                    json_dumps (command_message ''c2'' ''getver'' ''1700000001'')],
            consumer_count = 0, is_durable = True\<rparr>,
         data_queue \<mapsto> \<lparr>msgs = [], consumer_count = 1, is_durable = True\<rparr>],
      unacked = [], next_tag = 1, calls = [], is_open = True\<rparr>"

section \<open>Properties\<close>

subsection \<open>Loops and channel operations\<close>

lemma for_range_rule:
  assumes "for_range body i n s = (r, s')"
    and "I 0 s"
    and "\<And>k t. k < n \<Longrightarrow> I k t \<Longrightarrow>
           (if is_next (body (i + k) t) then I (Suc k) (state_of (body (i + k) t))
            else Q (state_of (body (i + k) t)))"
    and "\<And>t. I n t \<Longrightarrow> Q t"
  shows "Q s'"
  using assms
proof (induction n arbitrary: i s I)
  case 0
  then show ?case by simp
next
  case (Suc n)
  from Suc.prems(3)[of 0 s] Suc.prems(2)
  have first: "if is_next (body i s) then I (Suc 0) (state_of (body i s)) else Q (state_of (body i s))"
    by (simp split: if_splits)
  show ?case
  proof (cases "body i s")
    case (Next t)
    with Suc.prems(1) have run: "for_range body (Suc i) n t = (r, s')" by simp
    show ?thesis
    proof (rule Suc.IH[OF run, where I = "\<lambda>k. I (Suc k)"])
      show "I (Suc 0) t" using first Next by simp
    next
      fix k u assume "k < n" "I (Suc k) u"
      then show "if is_next (body (Suc i + k) u) then I (Suc (Suc k)) (state_of (body (Suc i + k) u))
            else Q (state_of (body (Suc i + k) u))"
        using Suc.prems(3)[of "Suc k" u] by (simp split: if_splits)
    next
      fix u assume "I (Suc n) u" then show "Q u" by (rule Suc.prems(4))
    qed
  next
    case (Break t)
    with Suc.prems(1) first show ?thesis by simp
  next
    case (Raise e t)
    with Suc.prems(1) first show ?thesis by simp
  qed
qed

lemma requeue_all_chan: "fst (requeue_all ts (ch, ls)) = nack_all ts ch"
  by (induction ts arbitrary: ch ls) (auto split: prod.splits sum.splits)

lemma nack_all_append: "nack_all (ts @ ts') ch = nack_all ts' (nack_all ts ch)"
  by (induction ts arbitrary: ch) auto

lemma same_broker_refl [simp]: "same_broker c c"
  by (simp add: same_broker_def)

lemma same_broker_called [simp]: "same_broker (called x c) c' = same_broker c c'"
  "same_broker c (called x c') = same_broker c c'"
  by (simp_all add: same_broker_def called_def)

lemma same_broker_refused [simp]: "same_broker (refused x c) c' = same_broker c c'"
  "same_broker c (refused x c') = same_broker c c'"
  by (simp_all add: same_broker_def refused_def called_def)

lemma same_broker_trans: "same_broker a b \<Longrightarrow> same_broker b c \<Longrightarrow> same_broker a c"
  by (simp add: same_broker_def)

lemma same_channel_refl [simp]: "same_channel c c"
  by (simp add: same_channel_def)

lemma same_channel_called [simp]: "same_channel (called x c) c' = same_channel c c'"
  "same_channel c (called x c') = same_channel c c'"
  by (simp_all add: same_channel_def called_def same_broker_def)

lemma same_channel_trans: "same_channel a b \<Longrightarrow> same_channel b c \<Longrightarrow> same_channel a c"
  by (simp add: same_channel_def same_broker_def)

lemma same_channel_broker: "same_channel a b \<Longrightarrow> same_broker a b"
  by (simp add: same_channel_def)

lemma basic_nack_same:
  "same_channel c c' \<Longrightarrow> same_channel (snd (basic_nack c t r)) (snd (basic_nack c' t r))"
  by (auto simp: same_channel_def same_broker_def basic_nack_def called_def refused_def
      split: option.splits prod.splits)

lemma nack_all_same:
  "same_channel c c' \<Longrightarrow> same_channel (nack_all ts c) (nack_all ts c')"
  by (induction ts arbitrary: c c') (auto intro: basic_nack_same)

lemma basic_get_some:
  assumes "basic_get c q = (Inr (Some (t, b)), c')"
  shows "same_channel (snd (basic_nack c' t True)) c"
    and "calls c' = calls c @ [Get q (Some t)]"
    and "queue_depth c' q + 1 = queue_depth c q"
    and "is_open c'" and "queues c' q \<noteq> None"
proof -
  from assms have op: "is_open c"
    by (auto simp: basic_get_def split: if_splits)
  from assms op obtain qu rest where qu: "queues c q = Some qu" "msgs qu = b # rest"
    by (auto simp: basic_get_def split: option.splits list.splits)
  have putback: "qu\<lparr>msgs := b # rest\<rparr> = qu"
    using qu(2) by (cases qu) simp
  from assms qu op have c': "c' = called (Get q (Some (next_tag c)))
      (c\<lparr>queues := (queues c)(q \<mapsto> qu\<lparr>msgs := rest\<rparr>),
         unacked := (next_tag c, q, b) # unacked c, next_tag := Suc (next_tag c)\<rparr>)"
    and t: "t = next_tag c"
    by (auto simp: basic_get_def)
  show "same_channel (snd (basic_nack c' t True)) c"
    using qu putback op
    by (simp add: c' t basic_nack_def same_channel_def same_broker_def called_def map_upd_triv)
  show "calls c' = calls c @ [Get q (Some t)]"
    by (simp add: c' t called_def)
  show "queue_depth c' q + 1 = queue_depth c q"
    using qu by (simp add: c' queue_depth_def called_def)
  show "is_open c'" using op by (simp add: c' called_def)
  show "queues c' q \<noteq> None" by (simp add: c' called_def)
qed

lemma basic_get_empty:
  assumes "basic_get c q = (Inr None, c')"
  shows "same_channel c' c" and "calls c' = calls c @ [Get q None]"
  using assms
  by (auto simp: basic_get_def same_channel_def same_broker_def called_def
      split: option.splits list.splits if_splits)

lemma basic_get_fail:
  assumes "basic_get c q = (Inl e, c')"
  shows "same_broker c' c" and "calls c' = calls c @ [Get q None]"
    and "\<not> is_open c \<or> queues c q = None"
  using assms
  by (auto simp: basic_get_def same_broker_def called_def refused_def
      split: option.splits list.splits if_splits)

lemma peek_body_cases:
  obtains (fail) e ch' where "basic_get (chan st) data_queue = (Inl e, ch')"
      "peek_body tgt limit sj i st = Raise e (st\<lparr>chan := ch'\<rparr>)"
  | (empty) ch' where "basic_get (chan st) data_queue = (Inr None, ch')"
      "peek_body tgt limit sj i st = Break (st\<lparr>chan := ch'\<rparr>)"
  | (got) t b ch' where "basic_get (chan st) data_queue = (Inr (Some (t, b)), ch')"
      "chan (state_of (peek_body tgt limit sj i st)) = ch'"
      "messages_to_requeue (state_of (peek_body tgt limit sj i st)) = messages_to_requeue st @ [t]"
      "\<not> filtering tgt \<Longrightarrow> is_next (peek_body tgt limit sj i st) \<Longrightarrow>
         messages_shown (state_of (peek_body tgt limit sj i st)) = messages_shown st + 1
         \<and> messages_shown st + 1 < limit"
proof (cases "basic_get (chan st) data_queue")
  case (Pair res ch')
  show ?thesis
  proof (cases res)
    case (Inl e)
    with Pair show ?thesis by (intro fail[of e ch']) (simp_all add: peek_body_def)
  next
    case (Inr g)
    show ?thesis
    proof (cases g)
      case None
      with Pair Inr show ?thesis by (intro empty[of ch']) (simp_all add: peek_body_def)
    next
      case (Some tb)
      obtain t b where tb: "tb = (t, b)" by (cases tb)
      have nf: "\<not> filtering tgt \<Longrightarrow> peek_filter tgt b = Inr True"
        by (cases tgt) auto
      show ?thesis
      proof (rule got[of t b ch'])
        show "basic_get (chan st) data_queue = (Inr (Some (t, b)), ch')"
          using Pair Inr Some tb by simp
        show "chan (state_of (peek_body tgt limit sj i st)) = ch'"
          using Pair Inr Some tb
          by (auto simp: peek_body_def Let_def split: sum.splits bool.splits prod.splits option.splits)
        show "messages_to_requeue (state_of (peek_body tgt limit sj i st)) = messages_to_requeue st @ [t]"
          using Pair Inr Some tb
          by (auto simp: peek_body_def Let_def split: sum.splits bool.splits prod.splits option.splits)
        show "messages_shown (state_of (peek_body tgt limit sj i st)) = messages_shown st + 1
           \<and> messages_shown st + 1 < limit"
          if "\<not> filtering tgt" "is_next (peek_body tgt limit sj i st)"
          using Pair Inr Some tb nf[OF that(1)] that(2)
          by (auto simp: peek_body_def Let_def split: sum.splits bool.splits prod.splits option.splits if_splits)
      qed
    qed
  qed
qed


lemma queue_depth_nonneg: "0 \<le> queue_depth c q"
  by (simp add: queue_depth_def split: option.splits)

lemma peek_inv_post: "peek_inv tgt limit c0 k t \<Longrightarrow> k \<le> n \<Longrightarrow> peek_post tgt limit c0 n t"
  unfolding peek_inv_def peek_post_def
  using queue_depth_nonneg[of "chan t" data_queue] by (auto dest: same_channel_broker)

lemma peek_body_step:
  assumes inv: "peek_inv tgt limit c0 k t" and k: "k < n"
  shows "if is_next (peek_body tgt limit sj i t)
         then peek_inv tgt limit c0 (Suc k) (state_of (peek_body tgt limit sj i t))
         else peek_post tgt limit c0 n (state_of (peek_body tgt limit sj i t))"
proof (cases rule: peek_body_cases[of t tgt limit sj i])
  case (fail e ch')
  note g = basic_get_fail[OF fail(1)]
  from g(3) inv have none: "messages_to_requeue t = []"
    by (auto simp: peek_inv_def)
  with inv have "same_broker (chan t) c0"
    by (auto simp: peek_inv_def dest: same_channel_broker)
  with g(1) have "same_broker ch' c0" by (rule same_broker_trans)
  then show ?thesis
    using inv k g(2) fail(2) none queue_depth_nonneg[of "chan t" data_queue]
    by (auto simp: peek_inv_def peek_post_def)
next
  case (empty ch')
  note g = basic_get_empty[OF empty(1)]
  have "same_channel (nack_all (rev (messages_to_requeue t)) ch') c0"
    using nack_all_same[OF g(1)] inv by (auto simp: peek_inv_def intro: same_channel_trans)
  then have "same_broker (nack_all (rev (messages_to_requeue t)) ch') c0"
    by (rule same_channel_broker)
  then show ?thesis
    using inv k g(2) empty(2) queue_depth_nonneg[of "chan t" data_queue]
    by (auto simp: peek_inv_def peek_post_def)
next
  case (got x b ch')
  let ?t' = "state_of (peek_body tgt limit sj i t)"
  note g = basic_get_some[OF got(1)]
  have sc: "same_channel (nack_all (rev (messages_to_requeue ?t')) (chan ?t')) c0"
    using nack_all_same[OF g(1), of "rev (messages_to_requeue t)"] inv
    by (auto simp: got(2,3) peek_inv_def intro: same_channel_trans)
  have cs: "calls (chan ?t') = calls c0 @ got_calls (messages_to_requeue ?t')"
    using inv g(2) by (simp add: got(2,3) peek_inv_def got_calls_def)
  have dp: "queue_depth (chan ?t') data_queue + int (length (messages_to_requeue ?t')) = queue_depth c0 data_queue"
    using inv g(3) by (simp add: got(2,3) peek_inv_def)
  have len: "length (messages_to_requeue ?t') \<le> Suc k"
    using inv by (simp add: got(3) peek_inv_def)
  have op: "is_open (chan ?t') \<and> queues (chan ?t') data_queue \<noteq> None"
    using g(4,5) by (simp add: got(2))
  show ?thesis
  proof (cases "is_next (peek_body tgt limit sj i t)")
    case True
    have "filtering tgt \<or> messages_shown ?t' = int (length (messages_to_requeue ?t'))
         \<and> (messages_to_requeue ?t' = [] \<or> messages_shown ?t' < limit)"
      using got(4)[OF _ True] inv by (auto simp: got(3) peek_inv_def)
    with True sc cs dp len op show ?thesis by (simp add: peek_inv_def)
  next
    case False
    have "filtering tgt \<or> int (length (messages_to_requeue ?t')) \<le> max 1 limit"
      using inv by (auto simp: got(3) peek_inv_def)
    moreover have "int (length (messages_to_requeue ?t')) \<le> queue_depth c0 data_queue"
      using dp queue_depth_nonneg[of "chan ?t'" data_queue] by linarith
    ultimately show ?thesis
      using False same_channel_broker[OF sc] cs len k by (auto simp: peek_post_def)
  qed
qed

lemma peek_loop_post:
  assumes "for_range (peek_body tgt limit sj) i n
             \<lparr>chan = c0, out = ls, messages_shown = 0, messages_to_requeue = []\<rparr> = (r, st)"
  shows "peek_post tgt limit c0 n st"
proof (rule for_range_rule[OF assms, where I = "peek_inv tgt limit c0"])
  show "peek_inv tgt limit c0 0 \<lparr>chan = c0, out = ls, messages_shown = 0, messages_to_requeue = []\<rparr>"
    by (simp add: peek_inv_def got_calls_def)
next
  fix k t assume "k < n" "peek_inv tgt limit c0 k t"
  then show "if is_next (peek_body tgt limit sj (i + k) t)
       then peek_inv tgt limit c0 (Suc k) (state_of (peek_body tgt limit sj (i + k) t))
       else peek_post tgt limit c0 n (state_of (peek_body tgt limit sj (i + k) t))"
    by (intro peek_body_step)
next
  fix t assume "peek_inv tgt limit c0 n t"
  then show "peek_post tgt limit c0 n t" by (rule peek_inv_post) simp
qed

lemma requeue_all_calls:
  "calls (fst (requeue_all ts (ch, ls))) = calls ch @ map (\<lambda>t. Nack t True) ts"
  by (induction ts arbitrary: ch ls)
     (auto simp: basic_nack_def called_def refused_def split: prod.splits sum.splits option.splits)

lemma ensure_connection_simps [simp]:
  "queues (fst (ensure_connection ch)) = queues ch"
  "unacked (fst (ensure_connection ch)) = unacked ch"
  "calls (fst (ensure_connection ch)) = calls ch"
  "next_tag (fst (ensure_connection ch)) = next_tag ch"
  "is_open (fst (ensure_connection ch))"
  by (simp_all add: ensure_connection_def)

lemma ensure_connection_open: "is_open ch \<Longrightarrow> ensure_connection ch = (ch, [])"
  by (simp add: ensure_connection_def)

lemma queue_depth_ensure [simp]:
  "queue_depth (fst (ensure_connection ch)) q = queue_depth ch q"
  by (simp add: queue_depth_def)

lemma declare_passive_result:
  "fst (queue_declare_passive ch q) =
     (if \<not> is_open ch then Inl ChannelWrongStateError
      else case queues ch q of None \<Rightarrow> Inl ChannelClosedByBroker
           | Some qu \<Rightarrow> Inr (int (length (msgs qu)), int (consumer_count qu)))"
  "same_broker (snd (queue_declare_passive ch q)) ch"
  "calls (snd (queue_declare_passive ch q)) = calls ch @ [DeclarePassive q]"
  by (simp_all add: queue_declare_passive_def called_def refused_def same_broker_def
      split: option.splits)

lemma peek_messages_cases:
  obtains (idle) "same_broker (fst (peek_messages tgt limit sj ch)) ch"
      "calls (fst (peek_messages tgt limit sj ch)) = calls ch @ [DeclarePassive data_queue]"
  | (browse) r st ls where
      "for_range (peek_body tgt limit sj) 0 (nat (min (limit * 3) (queue_depth ch data_queue)))
         \<lparr>chan = called (DeclarePassive data_queue) (fst (ensure_connection ch)), out = ls,
          messages_shown = 0, messages_to_requeue = []\<rparr> = (r, st)"
      "fst (peek_messages tgt limit sj ch) = fst (requeue_all (rev (messages_to_requeue st)) (chan st, out st))"
proof (cases "queues ch data_queue")
  case None
  then have "fst (peek_messages tgt limit sj ch) = refused (DeclarePassive data_queue) (fst (ensure_connection ch))"
    by (simp add: peek_messages_def queue_declare_passive_def)
  then have "same_broker (fst (peek_messages tgt limit sj ch)) ch"
      "calls (fst (peek_messages tgt limit sj ch)) = calls ch @ [DeclarePassive data_queue]"
    by (simp_all add: same_broker_def refused_def called_def)
  then show ?thesis by (rule idle)
next
  case (Some qu)
  show ?thesis
  proof (cases "msgs qu = []")
    case True
    with Some have "fst (peek_messages tgt limit sj ch) = called (DeclarePassive data_queue) (fst (ensure_connection ch))"
      by (simp add: peek_messages_def queue_declare_passive_def)
    then have "same_broker (fst (peek_messages tgt limit sj ch)) ch"
        "calls (fst (peek_messages tgt limit sj ch)) = calls ch @ [DeclarePassive data_queue]"
      by (simp_all add: same_broker_def called_def)
    then show ?thesis by (rule idle)
  next
    case False
    let ?ls = "snd (ensure_connection ch) @
                    (INFO, ''PEEKING AT MESSAGES'',
                       [JInt (min limit (int (length (msgs qu)))), JInt (int (length (msgs qu)))])
                    # (case tgt of
                         None \<Rightarrow> []
                       | Some t \<Rightarrow> if t = [] then [] else [(INFO, ''Filtering for IMEI'', [JStr t])])"
    obtain r st where run: "for_range (peek_body tgt limit sj) 0 (nat (min (limit * 3) (queue_depth ch data_queue)))
         \<lparr>chan = called (DeclarePassive data_queue) (fst (ensure_connection ch)), out = ?ls,
          messages_shown = 0, messages_to_requeue = []\<rparr> = (r, st)"
      by (cases "for_range (peek_body tgt limit sj) 0 (nat (min (limit * 3) (queue_depth ch data_queue)))
         \<lparr>chan = called (DeclarePassive data_queue) (fst (ensure_connection ch)), out = ?ls,
          messages_shown = 0, messages_to_requeue = []\<rparr>")
    have "fst (peek_messages tgt limit sj ch) = fst (requeue_all (rev (messages_to_requeue st)) (chan st, out st))"
      using Some False run
      by (simp add: peek_messages_def queue_declare_passive_def queue_depth_def Let_def
          split: prod.splits option.splits)
    with run show ?thesis by (rule browse)
  qed
qed

subsection \<open>Browsing leaves the queue as it was\<close>

text \<open>
  C2. With no other client acting on the broker, \<open>peek_messages\<close> leaves every queue
  with the messages it held before, in the same order, and leaves unacknowledged only
  what was so before; a passive declare of the data queue, on a channel made usable by
  \<open>ensure_connection\<close>, reports the same counts after the browse as before it. This
  holds for every limit and with or without an IMEI filter, hence for a browse of N
  messages without a filter, and also when displaying a message raises.
\<close>

theorem peek_messages_preserves_queue:
  "queues (fst (peek_messages target_imei limit show_json ch)) = queues ch
   \<and> unacked (fst (peek_messages target_imei limit show_json ch)) = unacked ch
   \<and> fst (queue_declare_passive
            (fst (ensure_connection (fst (peek_messages target_imei limit show_json ch)))) data_queue)
       = fst (queue_declare_passive (fst (ensure_connection ch)) data_queue)"
proof -
  have "same_broker (fst (peek_messages target_imei limit show_json ch)) ch"
  proof (cases rule: peek_messages_cases[of target_imei limit show_json ch])
    case idle
    then show ?thesis by simp
  next
    case (browse r st ls)
    from peek_loop_post[OF browse(1)] show ?thesis
      by (simp add: browse(2) requeue_all_chan peek_post_def same_broker_def called_def)
  qed
  then show ?thesis
    by (simp add: same_broker_def declare_passive_result)
qed

subsection \<open>The fetch budget of \<open>peek_messages\<close>\<close>

text \<open>
  C4. The calls that \<open>peek_messages\<close> makes on the channel are: the passive declare,
  one successful fetch for each message of the sequence \<open>F\<close>, at most one fetch to which
  the broker answered that the queue is empty, after which no further fetch is made, and
  the requeues. The length of \<open>F\<close> is at most \<open>min(queue_depth, limit * 3)\<close> when an
  IMEI filter is active and at most \<open>min(queue_depth, limit)\<close> when none is, a negative
  budget counting as zero since \<open>range\<close> of a negative number is empty. The second part
  is about the loop alone, run from any channel for any number \<open>n\<close> of passes: it fetches
  at most \<open>n\<close> messages and at most what the queue holds, and it stops at the first
  fetch that hands out no message.
\<close>

theorem peek_messages_fetch_bound:
  "(\<exists>F tail.
      calls (fst (peek_messages target_imei limit show_json ch)) =
        calls ch @ [DeclarePassive data_queue] @ got_calls F @ tail @ map (\<lambda>t. Nack t True) (rev F)
    \<and> (tail = [] \<or> tail = [Get data_queue None])
    \<and> int (length F) \<le> max 0 (min (queue_depth ch data_queue)
                                  (if filtering target_imei then limit * 3 else limit)))
   \<and> (let st = snd (for_range (peek_body target_imei limit show_json) 0 n
                      \<lparr>chan = ch, out = [], messages_shown = 0, messages_to_requeue = []\<rparr>)
      in (\<exists>tail. calls (chan st) = calls ch @ got_calls (messages_to_requeue st) @ tail
                 \<and> (tail = [] \<or> tail = [Get data_queue None]))
         \<and> length (messages_to_requeue st) \<le> n
         \<and> int (length (messages_to_requeue st)) \<le> queue_depth ch data_queue)"
proof
  show "\<exists>F tail.
      calls (fst (peek_messages target_imei limit show_json ch)) =
        calls ch @ [DeclarePassive data_queue] @ got_calls F @ tail @ map (\<lambda>t. Nack t True) (rev F)
    \<and> (tail = [] \<or> tail = [Get data_queue None])
    \<and> int (length F) \<le> max 0 (min (queue_depth ch data_queue)
                                  (if filtering target_imei then limit * 3 else limit))"
  proof (cases rule: peek_messages_cases[of target_imei limit show_json ch])
    case idle
    show ?thesis
      by (rule exI[of _ "[]"], rule exI[of _ "[]"]) (simp add: idle got_calls_def)
  next
    case (browse r st ls)
    let ?F = "messages_to_requeue st"
    let ?c1 = "called (DeclarePassive data_queue) (fst (ensure_connection ch))"
    from peek_loop_post[OF browse(1)] obtain tail where
      t: "calls (chan st) = calls ?c1 @ got_calls ?F @ tail" "tail = [] \<or> tail = [Get data_queue None]"
      and n: "length ?F \<le> nat (min (limit * 3) (queue_depth ch data_queue))"
      and d: "int (length ?F) \<le> queue_depth ?c1 data_queue"
      and l: "filtering target_imei \<or> int (length ?F) \<le> max 1 limit"
      by (auto simp: peek_post_def)
    have d': "queue_depth ?c1 data_queue = queue_depth ch data_queue"
      by (simp add: queue_depth_def called_def)
    have "int (length ?F) \<le> max 0 (min (queue_depth ch data_queue)
                                    (if filtering target_imei then limit * 3 else limit))"
      using n d l d' by (auto simp: max_def min_def split: if_splits)
    moreover have "calls (fst (peek_messages target_imei limit show_json ch)) =
          calls ch @ [DeclarePassive data_queue] @ got_calls ?F @ tail @ map (\<lambda>t. Nack t True) (rev ?F)"
      by (simp add: browse(2) requeue_all_calls t(1) called_def)
    ultimately show ?thesis using t(2) by blast
  qed
next
  let ?run = "for_range (peek_body target_imei limit show_json) 0 n
                \<lparr>chan = ch, out = [], messages_shown = 0, messages_to_requeue = []\<rparr>"
  have "?run = (fst ?run, snd ?run)" by simp
  from peek_loop_post[OF this]
  show "let st = snd ?run
      in (\<exists>tail. calls (chan st) = calls ch @ got_calls (messages_to_requeue st) @ tail
                 \<and> (tail = [] \<or> tail = [Get data_queue None]))
         \<and> length (messages_to_requeue st) \<le> n
         \<and> int (length (messages_to_requeue st)) \<le> queue_depth ch data_queue"
    by (simp add: peek_post_def Let_def)
qed

subsection \<open>Status classification\<close>

text \<open>
  C5. For every pair of non-negative counts the classification returns exactly one of the
  four statuses, following the truth table: BUSY when both counts are positive, ACTIVE
  when there are consumers and no messages, BACKLOG when there are messages and no
  consumers, IDLE when both are zero.
\<close>

theorem queue_status_truth_table:
  assumes "0 \<le> m" and "0 \<le> c"
  shows "(queue_status m c = BUSY \<longleftrightarrow> m > 0 \<and> c > 0)
       \<and> (queue_status m c = ACTIVE \<longleftrightarrow> c > 0 \<and> m = 0)
       \<and> (queue_status m c = BACKLOG \<longleftrightarrow> c = 0 \<and> m > 0)
       \<and> (queue_status m c = IDLE \<longleftrightarrow> m = 0 \<and> c = 0)"
  using assms by (auto simp: queue_status_def)

theorem queue_status_truth_table_witness:
  "(0::int) \<le> 4 \<and> (0::int) \<le> 0 \<and> queue_status 4 0 = BACKLOG
   \<and> queue_status 4 0 \<noteq> BUSY \<and> queue_status 4 0 \<noteq> ACTIVE \<and> queue_status 4 0 \<noteq> IDLE"
  using queue_status_truth_table [of 4 0] by simp

subsection \<open>Browsing operations without a cleanup block\<close>

text \<open>
  C1. The claim is that every browsing operation returns every fetched message to the
  queue, in reverse fetch order, in a cleanup block that runs even when decoding or
  display raises. \<open>peek_messages\<close> does so; \<open>list_queue_commands\<close> and
  \<open>inspect_queue_by_name\<close> requeue in the body of the \<open>try\<close>, after the display.
  Here a command queue holds one message whose body is the single byte \<open>0xFF\<close>, which is
  not UTF-8: both operations fetch it, the decoding raises, the handler reports the error,
  and no negative acknowledgment is issued. The message is left unacknowledged and the
  queue is empty for every other consumer.
\<close>

theorem list_queue_commands_leaves_unacked:
  "let bad = Body [CHR 0xFF] NotUtf8; q = ''350317177240177'';
       ch = \<lparr>queues = [q \<mapsto> \<lparr>msgs = [bad], consumer_count = 0, is_durable = True\<rparr>],
             unacked = [], next_tag = 1, calls = [], is_open = True\<rparr>;
       ch' = fst (list_queue_commands q ch)
   in calls ch' = [DeclarePassive q, Get q (Some 1)]
      \<and> unacked ch' = [(1, q, bad)]
      \<and> map_option msgs (queues ch' q) = Some []
      \<and> snd (list_queue_commands q ch) =
           [(PRINT, ''ALL COMMANDS IN QUEUE FOR IMEI'', [JStr q]),
            (PRINT, ''Total commands'', [JInt 1]),
            (ERROR, ''Error listing queue commands'', [JStr ''UnicodeDecodeError''])]
      \<and> fst (inspect_queue_by_name q ch) = False
      \<and> calls (fst (snd (inspect_queue_by_name q ch))) = [DeclarePassive q, Get q (Some 1)]
      \<and> unacked (fst (snd (inspect_queue_by_name q ch))) = [(1, q, bad)]
      \<and> map_option msgs (queues (fst (snd (inspect_queue_by_name q ch))) q) = Some []"
  by code_simp

subsection \<open>Decoding a message body\<close>

text \<open>
  C3. The claim is that decoding never raises: every body is classified, a body that does
  not parse is shown raw, and a missing type field gives UNKNOWN. The \<open>try\<close> of
  \<open>_display_message\<close> catches \<open>json.JSONDecodeError\<close> only. A body that is not
  UTF-8 (the single byte \<open>0xFF\<close>) raises UnicodeDecodeError out of the function, and a
  body that is JSON but not an object (\<open>[]\<close>) raises AttributeError at
  \<open>data.get\<close>; nothing is displayed in either case.
\<close>

theorem display_message_raises:
  "display_message (JInt 1) (Body [CHR 0xFF] NotUtf8) False = ([], Some UnicodeDecodeError)
   \<and> display_message (JInt 1) (Body ''[]'' (Value (JList []))) False = ([], Some AttributeError)"
  by code_simp

subsection \<open>The monitor's callback\<close>

text \<open>
  C9. The claim is that the callback of \<open>monitor_realtime\<close> acknowledges every message
  delivered to it. It acknowledges on each path it handles, but a body that is not UTF-8
  raises UnicodeDecodeError before any acknowledgment, with the IMEI filter (in the
  filter's own decoding) and without it (in \<open>_display_message\<close>): the callback makes no
  call on the channel and the delivery stays unacknowledged.
\<close>

theorem message_callback_raises_without_ack:
  "let bad = Body [CHR 0xFF] NotUtf8;
       ch = \<lparr>queues = [data_queue \<mapsto> \<lparr>msgs = [], consumer_count = 1, is_durable = True\<rparr>],
             unacked = [(7, data_queue, bad)], next_tag = 8, calls = [], is_open = True\<rparr>
   in fst (message_callback (Some ''350317177240177'') False 7 bad ch) = Some UnicodeDecodeError
      \<and> calls (fst (snd (message_callback (Some ''350317177240177'') False 7 bad ch))) = []
      \<and> unacked (fst (snd (message_callback (Some ''350317177240177'') False 7 bad ch)))
          = [(7, data_queue, bad)]
      \<and> fst (message_callback None False 7 bad ch) = Some UnicodeDecodeError
      \<and> calls (fst (snd (message_callback None False 7 bad ch))) = []
      \<and> unacked (fst (snd (message_callback None False 7 bad ch))) = [(7, data_queue, bad)]"
  by code_simp

subsection \<open>Sending a command\<close>

text \<open>
  C8. \<open>send_command\<close> succeeds exactly when the channel is open and the durable
  declaration is accepted (the queue is absent, or present and durable). When it succeeds,
  the calls it made on the channel are, in this order, the durable declaration of the
  target queue, the publication of the command with the persistence flag, and the passive
  declaration whose message count it reports: the command is the last message of the
  queue, the depth has grown by one, and the last line written reports the depth after the
  publication. When the declaration fails nothing is published: the declaration is the
  only call, the queues are as before, and the error is reported. The published body is
  the JSON object with the fields \<open>command_id\<close>, \<open>command\<close>, \<open>timestamp\<close> and
  \<open>source\<close>: its \<open>command\<close> field is the command sent, and its \<open>command_id\<close> is
  the caller's, or the freshly minted one when the caller gave none. The scenario that
  follows sends \<open>getinfo\<close> to the absent, hence empty, queue \<open>350317177240177\<close>: the
  reported depth is 1.
\<close>

theorem send_command_reports_depth:
  "let command_id' = (case command_id of None \<Rightarrow> new_uuid | Some c \<Rightarrow> c);
       body = json_dumps (command_message command_id' command now);
       r = send_command imei command command_id new_uuid now ch;
       ok = fst r; ch' = fst (snd r); ls = snd (snd r)
   in (ok \<longleftrightarrow> is_open ch \<and> (case queues ch imei of None \<Rightarrow> True | Some qu \<Rightarrow> is_durable qu))
      \<and> (if ok
          then calls ch' = calls ch @ [Declare imei True, Publish imei body True, DeclarePassive imei]
             \<and> map_option msgs (queues ch' imei)
                 = Some ((case queues ch imei of None \<Rightarrow> [] | Some qu \<Rightarrow> msgs qu) @ [body])
             \<and> queue_depth ch' imei = queue_depth ch imei + 1
             \<and> last ls = (INFO, ''Queue status: messages in queue'', [JInt (queue_depth ch' imei)])
          else calls ch' = calls ch @ [Declare imei True] \<and> queues ch' = queues ch
             \<and> ls = [(ERROR, ''Failed to send command'',
                      [exn_str (if is_open ch then ChannelClosedByBroker
                                else ChannelWrongStateError)])])
      \<and> decoded body = Value (JDict [(''command_id'', JStr command_id'), (''command'', JStr command),
                                      (''timestamp'', JStr now), (''source'', JStr ''command_sender'')])
      \<and> (case json_loads_decode body of
            Inl e \<Rightarrow> False
          | Inr data \<Rightarrow> py_get data ''command'' JNull = Inr (JStr command)
                       \<and> py_get data ''command_id'' JNull = Inr (JStr command_id'))"
proof (cases "is_open ch")
  case False
  then show ?thesis
    by (simp add: send_command_def queue_declare_def called_def json_dumps_def
        command_message_def Let_def)
next
  case True
  show ?thesis
  proof (cases "queues ch imei")
    case None
    with True show ?thesis
      by (simp add: send_command_def queue_declare_def basic_publish_def queue_declare_passive_def
          called_def refused_def queue_depth_def json_dumps_def command_message_def Let_def)
  next
    case (Some qu)
    with True show ?thesis
      by (cases "is_durable qu")
         (simp_all add: send_command_def queue_declare_def basic_publish_def queue_declare_passive_def
          called_def refused_def queue_depth_def json_dumps_def command_message_def Let_def)
  qed
qed

theorem send_command_getinfo_scenario:
  "let ch = \<lparr>queues = Map.empty, unacked = [], next_tag = 1, calls = [], is_open = True\<rparr>;
       r = send_command ''350317177240177'' ''getinfo'' None ''9f1c'' ''1700000000'' ch
   in fst r \<and> queue_depth (fst (snd r)) ''350317177240177'' = 1
      \<and> last (snd (snd r)) = (INFO, ''Queue status: messages in queue'', [JInt 1])
      \<and> calls (fst (snd r)) =
           [Declare ''350317177240177'' True,
            Publish ''350317177240177''
              (json_dumps (command_message ''9f1c'' ''getinfo'' ''1700000000'')) True,
            DeclarePassive ''350317177240177'']"
  using send_command_reports_depth [where command_id = None and new_uuid = "''9f1c''"
      and command = "''getinfo''" and now = "''1700000000''" and imei = "''350317177240177''"
      and ch = "\<lparr>queues = Map.empty, unacked = [], next_tag = 1, calls = [], is_open = True\<rparr>"]
  by (simp add: Let_def queue_depth_def split: if_splits)

subsection \<open>Discovery without the management API\<close>

lemma probe_loop_closed:
  "for_each probe_body i xs st = (r, st') \<Longrightarrow> \<not> is_open (chan st) \<Longrightarrow>
     r = None \<and> queues_found st' = queues_found st \<and> \<not> is_open (chan st')
   \<and> queues (chan st') = queues (chan st) \<and> unacked (chan st') = unacked (chan st)
   \<and> calls (chan st') = calls (chan st) @ map DeclarePassive (filter (\<lambda>q. q \<notin> discovered_queues st) xs)
   \<and> out st' = out st"
proof (induction xs arbitrary: i st)
  case Nil
  then show ?case by simp
next
  case (Cons x xs)
  show ?case
  proof (cases "x \<in> discovered_queues st")
    case True
    then have "probe_body i x st = Next st" by (simp add: probe_body_def)
    with Cons.prems(1) have "for_each probe_body (Suc i) xs st = (r, st')" by simp
    from Cons.IH[OF this Cons.prems(2)] True show ?thesis by simp
  next
    case False
    let ?st1 = "st\<lparr>chan := called (DeclarePassive x) (chan st)\<rparr>"
    have "probe_body i x st = Next ?st1"
      using False Cons.prems(2) by (simp add: probe_body_def queue_declare_passive_def)
    with Cons.prems(1) have run: "for_each probe_body (Suc i) xs ?st1 = (r, st')" by simp
    have "\<not> is_open (chan ?st1)" using Cons.prems(2) by (simp add: called_def)
    from Cons.IH[OF run this] False show ?thesis by (simp add: called_def)
  qed
qed

lemma probe_loop:
  "for_each probe_body i xs st = (r, st') \<Longrightarrow> distinct xs \<Longrightarrow> set xs \<inter> discovered_queues st = {} \<Longrightarrow>
   is_open (chan st) \<Longrightarrow>
     r = None
   \<and> queues_found st' = queues_found st @
        List.map_filter (probed (chan st)) (takeWhile (\<lambda>q. queues (chan st) q \<noteq> None) xs)
   \<and> is_open (chan st') = list_all (\<lambda>q. queues (chan st) q \<noteq> None) xs
   \<and> queues (chan st') = queues (chan st) \<and> unacked (chan st') = unacked (chan st)
   \<and> calls (chan st') = calls (chan st) @ map DeclarePassive xs
   \<and> out st' = out st"
proof (induction xs arbitrary: i st)
  case Nil
  then show ?case by simp
next
  case (Cons x xs)
  have x: "x \<notin> discovered_queues st" using Cons.prems(3) by auto
  have rest: "filter (\<lambda>q. q \<notin> discovered_queues st) xs = xs"
    using Cons.prems(3) by (auto simp: filter_id_conv)
  show ?case
  proof (cases "queues (chan st) x")
    case None
    let ?st1 = "st\<lparr>chan := refused (DeclarePassive x) (chan st)\<rparr>"
    have b: "probe_body i x st = Next ?st1"
      using x None Cons.prems(4) by (simp add: probe_body_def queue_declare_passive_def)
    with Cons.prems(1) have run: "for_each probe_body (Suc i) xs ?st1 = (r, st')" by simp
    have "\<not> is_open (chan ?st1)" by (simp add: refused_def called_def)
    from probe_loop_closed[OF run this] None rest show ?thesis
      by (simp add: refused_def called_def)
  next
    case (Some qu)
    let ?st1 = "st\<lparr>chan := called (DeclarePassive x) (chan st),
                   discovered_queues := insert x (discovered_queues st),
                   queues_found := queues_found st @
                     [\<lparr>name = x, messages = int (length (msgs qu)), consumers = int (consumer_count qu),
                       durable = True, auto_delete = False\<rparr>]\<rparr>"
    have b: "probe_body i x st = Next ?st1"
      using x Some Cons.prems(4) by (simp add: probe_body_def queue_declare_passive_def)
    with Cons.prems(1) have run: "for_each probe_body (Suc i) xs ?st1 = (r, st')" by simp
    have d: "set xs \<inter> discovered_queues ?st1 = {}" using Cons.prems(2,3) by auto
    have o: "is_open (chan ?st1)" using Cons.prems(4) by (simp add: called_def)
    from Cons.IH[OF run _ d o] Cons.prems(2) Some show ?thesis
      by (simp add: called_def probed_def)
  qed
qed

lemma distinct_system_queues: "distinct system_queues"
  by (simp add: system_queues_def data_queue_def)

lemma discover_fallback:
  assumes "management_api mgmt = Inl e"
  shows "fst (discover_queues_smart mgmt ch) =
           (if is_open ch
            then List.map_filter (probed ch) (takeWhile (\<lambda>q. queues ch q \<noteq> None) system_queues)
            else [])"
    and "queues (fst (snd (discover_queues_smart mgmt ch))) = queues ch"
    and "unacked (fst (snd (discover_queues_smart mgmt ch))) = unacked ch"
    and "calls (fst (snd (discover_queues_smart mgmt ch))) = calls ch @ map DeclarePassive system_queues"
    and "is_open (fst (snd (discover_queues_smart mgmt ch))) =
           (is_open ch \<and> list_all (\<lambda>q. queues ch q \<noteq> None) system_queues)"
    and "snd (snd (discover_queues_smart mgmt ch)) =
           [(DEBUG, ''Management API not available'', [exn_str e]),
            (INFO, ''Management API not available, using smart fallback method...'', []),
            (INFO, ''To see ALL queues, install requests library'', []),
            (INFO, ''And enable RabbitMQ management plugin on the server'', []),
            (INFO, ''Scanning for active IMEI queues...'', [])] @
           (if fst (discover_queues_smart mgmt ch) = []
            then [(WARNING,
                   ''No queues discovered. Management API recommended for full visibility.'', [])]
            else [(INFO, ''Found queues using fallback method'',
                     [JInt (int (length (fst (discover_queues_smart mgmt ch))))]),
                  (WARNING,
                   ''Note: Fallback method may not show all queues. Some queues might be missing.'',
                   [])])"
proof -
  let ?s0 = "\<lparr>chan = ch,
                    out = [(DEBUG, ''Management API not available'', [exn_str e]),
                           (INFO, ''Management API not available, using smart fallback method...'', []),
                           (INFO, ''To see ALL queues, install requests library'', []),
                           (INFO, ''And enable RabbitMQ management plugin on the server'', []),
                           (INFO, ''Scanning for active IMEI queues...'', [])],
                    discovered_queues = {}, queues_found = []\<rparr>"
  obtain r st where run: "for_each probe_body 0 system_queues ?s0 = (r, st)"
    by (cases "for_each probe_body 0 system_queues ?s0")
  have d: "discover_queues_smart mgmt ch =
      (queues_found st, chan st,
               out st @
               (if queues_found st = []
                then [(WARNING,
                       ''No queues discovered. Management API recommended for full visibility.'', [])]
                else [(INFO, ''Found queues using fallback method'',
                         [JInt (int (length (queues_found st)))]),
                      (WARNING,
                       ''Note: Fallback method may not show all queues. Some queues might be missing.'',
                       [])]))"
    using assms run by (simp add: discover_queues_smart_def)
  have p: "queues_found st =
           (if is_open ch
            then List.map_filter (probed ch) (takeWhile (\<lambda>q. queues ch q \<noteq> None) system_queues)
            else [])
      \<and> queues (chan st) = queues ch \<and> unacked (chan st) = unacked ch
      \<and> calls (chan st) = calls ch @ map DeclarePassive system_queues
      \<and> is_open (chan st) = (is_open ch \<and> list_all (\<lambda>q. queues ch q \<noteq> None) system_queues)
      \<and> out st = out ?s0"
  proof (cases "is_open ch")
    case True
    with probe_loop[OF run distinct_system_queues] show ?thesis by simp
  next
    case False
    with probe_loop_closed[OF run] show ?thesis by simp
  qed
  show "fst (discover_queues_smart mgmt ch) =
           (if is_open ch
            then List.map_filter (probed ch) (takeWhile (\<lambda>q. queues ch q \<noteq> None) system_queues)
            else [])"
    using p by (simp add: d)
  show "queues (fst (snd (discover_queues_smart mgmt ch))) = queues ch"
    using p by (simp add: d)
  show "unacked (fst (snd (discover_queues_smart mgmt ch))) = unacked ch"
    using p by (simp add: d)
  show "calls (fst (snd (discover_queues_smart mgmt ch))) = calls ch @ map DeclarePassive system_queues"
    using p by (simp add: d)
  show "is_open (fst (snd (discover_queues_smart mgmt ch))) =
           (is_open ch \<and> list_all (\<lambda>q. queues ch q \<noteq> None) system_queues)"
    using p by (simp add: d)
  show "snd (snd (discover_queues_smart mgmt ch)) =
           [(DEBUG, ''Management API not available'', [exn_str e]),
            (INFO, ''Management API not available, using smart fallback method...'', []),
            (INFO, ''To see ALL queues, install requests library'', []),
            (INFO, ''And enable RabbitMQ management plugin on the server'', []),
            (INFO, ''Scanning for active IMEI queues...'', [])] @
           (if fst (discover_queues_smart mgmt ch) = []
            then [(WARNING,
                   ''No queues discovered. Management API recommended for full visibility.'', [])]
            else [(INFO, ''Found queues using fallback method'',
                     [JInt (int (length (fst (discover_queues_smart mgmt ch))))]),
                  (WARNING,
                   ''Note: Fallback method may not show all queues. Some queues might be missing.'',
                   [])])"
    using p by (simp add: d)
qed



lemma probed_name: "probed ch q = Some s \<Longrightarrow> name s = q"
  by (auto simp: probed_def split: option.splits)

lemma no_imei_probed:
  "filter is_imei_format xs = [] \<Longrightarrow> filter (\<lambda>q. is_imei_format (name q)) (List.map_filter (probed ch) xs) = []"
  by (induction xs) (auto split: option.splits if_splits dest: probed_name)

lemma no_imei_candidates: "filter is_imei_format system_queues = []"
  by code_simp

lemma no_imei_prefix: "filter is_imei_format (takeWhile P system_queues) = []"
  using no_imei_candidates
  by (metis filter_empty_conv set_takeWhileD)

lemma fallback_names:
  assumes "management_api mgmt = Inl e"
  shows "set (map name (fst (discover_queues_smart mgmt ch))) \<subseteq> set system_queues"
    and "filter (\<lambda>q. is_imei_format (name q)) (fst (discover_queues_smart mgmt ch)) = []"
proof -
  show "set (map name (fst (discover_queues_smart mgmt ch))) \<subseteq> set system_queues"
  proof -
    have "name s \<in> set system_queues"
      if "q \<in> set (takeWhile (\<lambda>q. queues ch q \<noteq> None) system_queues)" "probed ch q = Some s" for q s
      using set_takeWhileD[OF that(1)] probed_name[OF that(2)] by simp
    then show ?thesis
      unfolding discover_fallback(1)[OF assms]
      by (auto simp: List.map_filter_def)
  qed
  show "filter (\<lambda>q. is_imei_format (name q)) (fst (discover_queues_smart mgmt ch)) = []"
    unfolding discover_fallback(1)[OF assms]
    by (simp add: no_imei_probed[OF no_imei_prefix])
qed

text \<open>
  C10. The candidates of the fallback are the data queue and six fixed names, and none of
  them has the IMEI format. So whenever discovery falls back to probing (the management
  request fails in any way), every discovered name is one of the candidates, the imei-only
  filter keeps nothing, and \<open>list_all_queues\<close> with that filter prints no queue line:
  it ends with the message that no IMEI queues were found, or with the troubleshooting
  text when the probing, on the channel that \<open>list_all_queues\<close> made usable, found
  nothing at all.
\<close>

theorem probe_candidates_hold_no_imei:
  "system_queues =
     [data_queue, ''device_commands'', ''system_alerts'', ''error_queue'',
      ''dead_letter_queue'', ''audit_log'', ''notifications'']
   \<and> filter is_imei_format system_queues = []
   \<and> (management_api mgmt = Inl e \<longrightarrow>
        set (map name (fst (discover_queues_smart mgmt ch))) \<subseteq> set system_queues
      \<and> apply_filter ''imei-only'' show_active_only (fst (discover_queues_smart mgmt ch)) = []
      \<and> filter (\<lambda>l. fst (snd l) = ''queue'')
           (snd (list_all_queues ''imei-only'' show_active_only mgmt ch)) = []
      \<and> last (snd (list_all_queues ''imei-only'' show_active_only mgmt ch)) =
          (if fst (discover_queues_smart mgmt (fst (ensure_connection ch))) = []
           then (PRINT, ''TROUBLESHOOTING'', [])
           else (PRINT, ''No queues found or accessible'', [JStr '' (no IMEI queues found)''])))"
proof (intro conjI impI)
  show "system_queues =
     [data_queue, ''device_commands'', ''system_alerts'', ''error_queue'',
      ''dead_letter_queue'', ''audit_log'', ''notifications'']"
    by (simp add: system_queues_def)
  show "filter is_imei_format system_queues = []" by (rule no_imei_candidates)
next
  assume e: "management_api mgmt = Inl e"
  let ?c = "fst (ensure_connection ch)"
  note f = discover_fallback[OF e, of ?c]
  obtain qs c1 ls where d: "discover_queues_smart mgmt ?c = (qs, c1, ls)"
    by (cases "discover_queues_smart mgmt ?c")
  show "set (map name (fst (discover_queues_smart mgmt ch))) \<subseteq> set system_queues"
    by (rule fallback_names(1)[OF e])
  show "apply_filter ''imei-only'' show_active_only (fst (discover_queues_smart mgmt ch)) = []"
    by (simp add: apply_filter_def fallback_names(2)[OF e])
  have a: "apply_filter ''imei-only'' show_active_only qs = []"
    using fallback_names(2)[OF e, of ?c] d by (simp add: apply_filter_def)
  have ls: "filter (\<lambda>l. fst (snd l) = ''queue'') ls = []"
    using f(6) d by simp
  have re: "filter (\<lambda>l. fst (snd l) = ''queue'') (snd (ensure_connection ch)) = []"
    by (simp add: ensure_connection_def)
  show "filter (\<lambda>l. fst (snd l) = ''queue'')
           (snd (list_all_queues ''imei-only'' show_active_only mgmt ch)) = []"
    using a ls re d by (simp add: list_all_queues_def Let_def)
  show "last (snd (list_all_queues ''imei-only'' show_active_only mgmt ch)) =
          (if fst (discover_queues_smart mgmt (fst (ensure_connection ch))) = []
           then (PRINT, ''TROUBLESHOOTING'', [])
           else (PRINT, ''No queues found or accessible'', [JStr '' (no IMEI queues found)'']))"
    using a d by (simp add: list_all_queues_def Let_def)
qed

theorem probe_candidates_hold_no_imei_witness:
  "let ch = \<lparr>queues = [data_queue \<mapsto> \<lparr>msgs = [Body ''x'' NotJson], consumer_count = 2, is_durable = True\<rparr>,
                        ''350317177240177'' \<mapsto> \<lparr>msgs = [], consumer_count = 1, is_durable = True\<rparr>],
             unacked = [], next_tag = 1, calls = [], is_open = True\<rparr>
   in management_api NoReply = Inl RequestException
    \<and> map name (fst (discover_queues_smart NoReply ch)) = [''device_tcp_data'']
    \<and> apply_filter ''imei-only'' False (fst (discover_queues_smart NoReply ch)) = []
    \<and> last (snd (list_all_queues ''imei-only'' False NoReply ch)) =
        (PRINT, ''No queues found or accessible'', [JStr '' (no IMEI queues found)''])"
proof -
  let ?ch = "\<lparr>queues = [data_queue \<mapsto> \<lparr>msgs = [Body ''x'' NotJson], consumer_count = 2, is_durable = True\<rparr>,
                        ''350317177240177'' \<mapsto> \<lparr>msgs = [], consumer_count = 1, is_durable = True\<rparr>],
             unacked = [], next_tag = 1, calls = [], is_open = True\<rparr>"
  have m: "management_api NoReply = Inl RequestException" by simp
  have o: "fst (ensure_connection ?ch) = ?ch" by (simp add: ensure_connection_def)
  have n: "map name (fst (discover_queues_smart NoReply ?ch)) = [''device_tcp_data'']"
    by (simp add: discover_fallback(1)[OF m] system_queues_def data_queue_def probed_def)
  from probe_candidates_hold_no_imei [where mgmt = NoReply and e = RequestException and ch = ?ch
      and show_active_only = False] m n
  show ?thesis unfolding o by (simp add: Let_def split: if_splits)
qed

subsection \<open>Inspection by partial name\<close>

lemma sort_reverse_props:
  "mset (sort_reverse key xs) = mset xs"
  "length (sort_reverse key xs) = length xs"
  "sorted_wrt (\<lambda>a b. key a \<ge> key b) (sort_reverse key xs)"
proof -
  show "mset (sort_reverse key xs) = mset xs" by (simp add: sort_reverse_def)
  show "length (sort_reverse key xs) = length xs" by (simp add: sort_reverse_def)
  have "sorted (map key (sort_key key (rev xs)))" by simp
  then have "sorted_wrt (\<lambda>a b. key a \<le> key b) (sort_key key (rev xs))"
    by (simp add: sorted_wrt_map)
  then show "sorted_wrt (\<lambda>a b. key a \<ge> key b) (sort_reverse key xs)"
    by (simp add: sort_reverse_def sorted_wrt_rev)
qed

lemma inspect_each_out:
  "for_each (inspect_each n) i xs st = (r, st') \<Longrightarrow> \<exists>more. out st' = out st @ more"
proof (induction xs arbitrary: i st)
  case Nil
  then show ?case by simp
next
  case (Cons x xs)
  obtain ok ch' ls where q: "inspect_queue_by_name (name x) (chan st) = (ok, ch', ls)"
    by (cases "inspect_queue_by_name (name x) (chan st)")
  let ?st1 = "\<lparr>chan = ch', out = out st @ (PRINT, ''QUEUE of'', [JInt (int i + 1), JInt (int n)]) # ls\<rparr>"
  have "inspect_each n i x st = Next ?st1"
    using q by (simp add: inspect_each_def)
  with Cons.prems have "for_each (inspect_each n) (Suc i) xs ?st1 = (r, st')"
    by simp
  from Cons.IH[OF this] show ?case by auto
qed

lemma find_queues_eq:
  "find_queues_by_partial_name search_term mgmt ch =
     (filter (\<lambda>q. sublist (py_lower search_term) (py_lower (name q)))
        (fst (discover_queues_smart mgmt (fst (ensure_connection ch)))),
      fst (snd (discover_queues_smart mgmt (fst (ensure_connection ch)))),
      snd (ensure_connection ch) @ snd (snd (discover_queues_smart mgmt (fst (ensure_connection ch)))))"
  by (simp add: find_queues_by_partial_name_def Let_def split: prod.splits)

lemma inspect_body_out:
  assumes "for_range (inspect_body q) i n st = (r, st')"
  shows "\<exists>more. out st' = out st @ more"
proof (rule for_range_rule[OF assms, where I = "\<lambda>k t. \<exists>more. out t = out st @ more"])
  show "\<exists>more. out st = out st @ more" by simp
next
  fix k and t :: inspect_state assume "\<exists>more. out t = out st @ more"
  then obtain more where m: "out t = out st @ more" by blast
  have "\<exists>more'. out (state_of (inspect_body q (i + k) t)) = out t @ more'"
    by (auto simp: inspect_body_def split: prod.splits sum.splits option.splits)
  with m have "\<exists>more. out (state_of (inspect_body q (i + k) t)) = out st @ more" by auto
  then show "if is_next (inspect_body q (i + k) t)
       then \<exists>more. out (state_of (inspect_body q (i + k) t)) = out st @ more
       else \<exists>more. out (state_of (inspect_body q (i + k) t)) = out st @ more"
    by simp
qed

lemma inspect_existing:
  assumes "queues ch q = Some qu" and "is_open ch"
  shows "take 4 (snd (snd (inspect_queue_by_name q ch))) =
           [(PRINT, ''INSPECTING QUEUE'', [JStr q]),
            (PRINT, ''Queue Name'', [JStr q]),
            (PRINT, ''Messages in Queue'', [JInt (int (length (msgs qu)))]),
            (PRINT, ''Active Consumers'', [JInt (int (consumer_count qu))])]"
proof (cases "msgs qu = []")
  case True
  with assms show ?thesis
    by (simp add: inspect_queue_by_name_def queue_declare_passive_def Let_def
        ensure_connection_open)
next
  case False
  let ?s0 = "\<lparr>chan = called (DeclarePassive q) ch,
                out = ([] @ [(PRINT, ''INSPECTING QUEUE'', [JStr q])]) @
                    [(PRINT, ''Queue Name'', [JStr q]),
                     (PRINT, ''Messages in Queue'', [JInt (int (length (msgs qu)))]),
                     (PRINT, ''Active Consumers'', [JInt (int (consumer_count qu))]),
                     (if int (consumer_count qu) > 0 then (PRINT, ''Status: ACTIVE (has consumers)'', [])
                      else (PRINT, ''Status: INACTIVE (no consumers)'', []))]
                   @ [(PRINT, ''Backlog: messages waiting'', [JInt (int (length (msgs qu)))]),
                      (PRINT, ''SAMPLE MESSAGES (first 3)'', [])],
                messages_shown' = 0\<rparr>"
  obtain r st where run: "for_range (inspect_body q) 0 (nat (min 3 (int (length (msgs qu))))) ?s0 = (r, st)"
    by (cases "for_range (inspect_body q) 0 (nat (min 3 (int (length (msgs qu))))) ?s0")
  from inspect_body_out[OF run] obtain more where more: "out st = out ?s0 @ more" by blast
  from assms False run more show ?thesis
    by (simp add: inspect_queue_by_name_def queue_declare_passive_def Let_def
        ensure_connection_open split: option.splits)
qed

text \<open>
  C7. \<open>find_queues_by_partial_name\<close> returns the discovered queues whose lower-cased
  name contains the lower-cased search term, in discovery order; call them the matches.
  \<open>inspect_queues_by_partial_name\<close> then has three outcomes. With no match it returns
  \<open>False\<close> after the hint that the search is case-insensitive. With exactly one match
  it returns what \<open>inspect_queue_by_name\<close> returns for that queue. With two or more
  it prints, before anything depends on the operator's answer, the table of the matches:
  exactly the matches (the same multiset), by descending message count, one line for each
  with its number from 1, its name cut to 29 characters, its message count, its consumer
  count and whether it has consumers. Last, option 5 of the queue menu on a search term
  that is the name of an existing queue inspects that queue directly, without any
  discovery, and the inspection starts with the queue's name and its message and consumer
  counts.
\<close>

theorem partial_name_inspection:
  "let found = discover_queues_smart mgmt (fst (ensure_connection ch));
       ch1 = fst (snd found); ls = snd (ensure_connection ch) @ snd (snd found);
       M = filter (\<lambda>q. sublist (py_lower search_term) (py_lower (name q))) (fst found);
       banner = (PRINT, ''SEARCHING FOR QUEUES CONTAINING'', [JStr search_term]);
       r = inspect_queues_by_partial_name search_term choice mgmt ch;
       c1 = called (DeclarePassive search_term) (fst (ensure_connection ch))
   in find_queues_by_partial_name search_term mgmt ch = (M, ch1, ls)
    \<and> (M = [] \<longrightarrow>
          r = (False, ch1,
               banner # ls @
               [(PRINT, ''No queues found containing'', [JStr search_term]),
                (PRINT, ''Tip: Search is case-insensitive. Try broader terms'', [])]))
    \<and> (\<forall>q. M = [q] \<longrightarrow>
          r = (fst (inspect_queue_by_name (name q) ch1),
               fst (snd (inspect_queue_by_name (name q) ch1)),
               banner # ls @ (PRINT, ''Found 1 matching queue'', [JStr (name q)])
                 # snd (snd (inspect_queue_by_name (name q) ch1))))
    \<and> (2 \<le> length M \<longrightarrow>
          (\<exists>rest. snd (snd r) =
             banner # ls @
             (PRINT, ''Found matching queues'', [JInt (int (length M))])
             # map (\<lambda>(i, q).
                      (PRINT, ''match'',
                       [JInt (int i + 1),
                        JStr (if length (name q) > 29 then take 29 (name q) else name q),
                        JInt (messages q), JInt (consumers q),
                        JStr (if consumers q > 0 then ''ACTIVE'' else ''IDLE'')]))
                 (enumerate 0 (sort_reverse messages M)) @ rest)
        \<and> mset (sort_reverse messages M) = mset M
        \<and> sorted_wrt (\<lambda>a b. messages a \<ge> messages b) (sort_reverse messages M))
    \<and> (search_term \<noteq> [] \<and> queues ch search_term \<noteq> None \<longrightarrow>
          queue_operations_inspect search_term choice mgmt ch =
            (fst (snd (inspect_queue_by_name search_term c1)),
             snd (ensure_connection ch) @
             (PRINT, ''Found exact match'', [JStr search_term])
             # snd (snd (inspect_queue_by_name search_term c1))
             @ (if fst (inspect_queue_by_name search_term c1)
                then []
                else [(PRINT, ''Tip: Use List Active Queues to see available queues'', []),
                      (PRINT, ''Try broader search terms'', [])]))
        \<and> take 4 (snd (snd (inspect_queue_by_name search_term c1))) =
            [(PRINT, ''INSPECTING QUEUE'', [JStr search_term]),
             (PRINT, ''Queue Name'', [JStr search_term]),
             (PRINT, ''Messages in Queue'', [JInt (queue_depth ch search_term)]),
             (PRINT, ''Active Consumers'',
                [JInt (case queues ch search_term of None \<Rightarrow> 0 | Some qu \<Rightarrow> int (consumer_count qu))])])"
proof -
  define found where "found = discover_queues_smart mgmt (fst (ensure_connection ch))"
  define ch1 where "ch1 = fst (snd found)"
  define ls where "ls = snd (ensure_connection ch) @ snd (snd found)"
  define M where "M = filter (\<lambda>q. sublist (py_lower search_term) (py_lower (name q))) (fst found)"
  define banner where "banner = (PRINT, ''SEARCHING FOR QUEUES CONTAINING'', [JStr search_term])"
  define r where "r = inspect_queues_by_partial_name search_term choice mgmt ch"
  define c1 where "c1 = called (DeclarePassive search_term) (fst (ensure_connection ch))"
  have f: "find_queues_by_partial_name search_term mgmt ch = (M, ch1, ls)"
    by (simp add: find_queues_eq M_def ch1_def ls_def found_def)
  have zero: "r = (False, ch1,
               banner # ls @
               [(PRINT, ''No queues found containing'', [JStr search_term]),
                (PRINT, ''Tip: Search is case-insensitive. Try broader terms'', [])])" if "M = []"
    using that f by (simp add: r_def inspect_queues_by_partial_name_def banner_def)
  have one: "r = (fst (inspect_queue_by_name (name q) ch1),
               fst (snd (inspect_queue_by_name (name q) ch1)),
               banner # ls @ (PRINT, ''Found 1 matching queue'', [JStr (name q)])
                 # snd (snd (inspect_queue_by_name (name q) ch1)))" if "M = [q]" for q
    using that f
    by (simp add: r_def inspect_queues_by_partial_name_def banner_def sort_reverse_def
        split: prod.splits)
  have many: "\<exists>rest. snd (snd r) =
             banner # ls @
             (PRINT, ''Found matching queues'', [JInt (int (length M))])
             # map (\<lambda>(i, q).
                      (PRINT, ''match'',
                       [JInt (int i + 1),
                        JStr (if length (name q) > 29 then take 29 (name q) else name q),
                        JInt (messages q), JInt (consumers q),
                        JStr (if consumers q > 0 then ''ACTIVE'' else ''IDLE'')]))
                 (enumerate 0 (sort_reverse messages M)) @ rest"
    if "2 \<le> length M"
  proof -
    let ?S = "sort_reverse messages M"
    let ?table = "banner # ls @
                          (PRINT, ''Found matching queues'', [JInt (int (length ?S))])
                          # map (\<lambda>(i, q). match_row (Suc i) q) (enumerate 0 ?S) @
                          [(PRINT, ''Options: a = all, number = one queue, 0 = cancel'',
                            [JInt (int (length ?S))])]"
    have len: "length ?S = length M" by (rule sort_reverse_props)
    with that obtain a b cs where S: "?S = a # b # cs"
      by (cases ?S; cases "tl ?S") auto
    have ne: "M \<noteq> []" using that by auto
    obtain rr st where run: "for_each (inspect_each (length ?S)) 0 ?S \<lparr>chan = ch1, out = ?table\<rparr> = (rr, st)"
      by (cases "for_each (inspect_each (length ?S)) 0 ?S \<lparr>chan = ch1, out = ?table\<rparr>")
    from inspect_each_out[OF run] obtain more where more: "out st = ?table @ more" by auto
    have rows: "map (\<lambda>(i, q). match_row (Suc i) q) (enumerate 0 ?S) =
        map (\<lambda>(i, q).
                      (PRINT, ''match'',
                       [JInt (int i + 1),
                        JStr (if length (name q) > 29 then take 29 (name q) else name q),
                        JInt (messages q), JInt (consumers q),
                        JStr (if consumers q > 0 then ''ACTIVE'' else ''IDLE'')]))
                 (enumerate 0 ?S)"
      by (rule map_cong) (auto simp: match_row_def)
    have "\<exists>rest. snd (snd r) = ?table @ rest"
      using f ne S run more
      by (auto simp: r_def inspect_queues_by_partial_name_def banner_def Let_def
          split: prod.splits option.splits)
    then show ?thesis unfolding rows by (auto simp: len)
  qed
  have exact: "queue_operations_inspect search_term choice mgmt ch =
            (fst (snd (inspect_queue_by_name search_term c1)),
             snd (ensure_connection ch) @
             (PRINT, ''Found exact match'', [JStr search_term])
             # snd (snd (inspect_queue_by_name search_term c1))
             @ (if fst (inspect_queue_by_name search_term c1)
                then []
                else [(PRINT, ''Tip: Use List Active Queues to see available queues'', []),
                      (PRINT, ''Try broader search terms'', [])]))"
    if "search_term \<noteq> []" "queues ch search_term \<noteq> None"
    using that
    by (auto simp: queue_operations_inspect_def queue_declare_passive_def Let_def c1_def
        split: prod.splits option.splits)
  have snap: "take 4 (snd (snd (inspect_queue_by_name search_term c1))) =
            [(PRINT, ''INSPECTING QUEUE'', [JStr search_term]),
             (PRINT, ''Queue Name'', [JStr search_term]),
             (PRINT, ''Messages in Queue'', [JInt (queue_depth ch search_term)]),
             (PRINT, ''Active Consumers'',
                [JInt (case queues ch search_term of None \<Rightarrow> 0 | Some qu \<Rightarrow> int (consumer_count qu))])]"
    if "queues ch search_term \<noteq> None"
  proof -
    from that obtain qu where qu: "queues ch search_term = Some qu" by auto
    then have "queues c1 search_term = Some qu" "is_open c1"
      by (simp_all add: called_def c1_def)
    from inspect_existing[OF this] qu show ?thesis by (simp add: queue_depth_def)
  qed
  show ?thesis
    unfolding Let_def
    using f zero one many exact snap sort_reverse_props(1,3)[of messages M]
    unfolding found_def ch1_def ls_def M_def banner_def r_def c1_def
    by (intro conjI impI allI) (blast | elim conjE, blast)+
qed

theorem partial_name_inspection_witness:
  "(2 \<le> length (filter (\<lambda>q. sublist (py_lower ''3503'') (py_lower (name q)))
                   (fst (discover_queues_smart example_reply example_broker)))
    \<and> map name (sort_reverse messages
                   (filter (\<lambda>q. sublist (py_lower ''3503'') (py_lower (name q)))
                      (fst (discover_queues_smart example_reply example_broker))))
        = [''350317177240178'', ''350317177240177'', ''350317177240179'']
    \<and> (\<exists>rest. snd (snd (inspect_queues_by_partial_name ''3503'' ''0'' example_reply example_broker)) =
          (PRINT, ''SEARCHING FOR QUEUES CONTAINING'', [JStr ''3503''])
          # snd (snd (discover_queues_smart example_reply example_broker)) @
          (PRINT, ''Found matching queues'', [JInt 3])
          # [(PRINT, ''match'', [JInt 1, JStr ''350317177240178'', JInt 7, JInt 1, JStr ''ACTIVE'']),
             (PRINT, ''match'', [JInt 2, JStr ''350317177240177'', JInt 2, JInt 0, JStr ''IDLE'']),
             (PRINT, ''match'', [JInt 3, JStr ''350317177240179'', JInt 0, JInt 0, JStr ''IDLE''])]
          @ rest))
   \<and> (filter (\<lambda>q. sublist (py_lower ''zzz'') (py_lower (name q)))
         (fst (discover_queues_smart example_reply example_broker)) = []
      \<and> fst (inspect_queues_by_partial_name ''zzz'' ''0'' example_reply example_broker) = False)
   \<and> (map name (filter (\<lambda>q. sublist (py_lower ''TCP'') (py_lower (name q)))
                   (fst (discover_queues_smart example_reply example_broker))) = [''device_tcp_data'']
      \<and> fst (inspect_queues_by_partial_name ''TCP'' ''0'' example_reply example_broker)
          = fst (inspect_queue_by_name ''device_tcp_data''
                   (fst (snd (discover_queues_smart example_reply example_broker)))))
   \<and> (queues example_broker ''350317177240177'' \<noteq> None
      \<and> take 4 (snd (queue_operations_inspect ''350317177240177'' ''0'' example_reply example_broker)) =
          [(PRINT, ''Found exact match'', [JStr ''350317177240177'']),
           (PRINT, ''INSPECTING QUEUE'', [JStr ''350317177240177'']),
           (PRINT, ''Queue Name'', [JStr ''350317177240177'']),
           (PRINT, ''Messages in Queue'', [JInt 2])])"
proof -
  let ?M = "\<lambda>t. filter (\<lambda>q. sublist (py_lower t) (py_lower (name q)))
                   (fst (discover_queues_smart example_reply example_broker))"
  have o: "ensure_connection example_broker = (example_broker, [])"
    by (simp add: ensure_connection_def example_broker_def)
  have m3: "?M ''3503'' =
      [\<lparr>name = ''350317177240177'', messages = 2, consumers = 0, durable = True, auto_delete = False\<rparr>,
       \<lparr>name = ''350317177240178'', messages = 7, consumers = 1, durable = True, auto_delete = False\<rparr>,
       \<lparr>name = ''350317177240179'', messages = 0, consumers = 0, durable = True, auto_delete = False\<rparr>]"
    by code_simp
  have s3: "sort_reverse messages (?M ''3503'') =
      [\<lparr>name = ''350317177240178'', messages = 7, consumers = 1, durable = True, auto_delete = False\<rparr>,
       \<lparr>name = ''350317177240177'', messages = 2, consumers = 0, durable = True, auto_delete = False\<rparr>,
       \<lparr>name = ''350317177240179'', messages = 0, consumers = 0, durable = True, auto_delete = False\<rparr>]"
    unfolding m3 by code_simp
  have mz: "?M ''zzz'' = []" by code_simp
  have mt: "?M ''TCP'' =
      [\<lparr>name = ''device_tcp_data'', messages = 5, consumers = 1, durable = True, auto_delete = False\<rparr>]"
    by code_simp
  have ex: "queues example_broker ''350317177240177'' \<noteq> None"
    by (simp add: example_broker_def data_queue_def)
  have depth: "queue_depth example_broker ''350317177240177'' = 2"
    by (simp add: example_broker_def queue_depth_def data_queue_def)
  note many = partial_name_inspection[where search_term = "''3503''" and choice = "''0''"
      and mgmt = example_reply and ch = example_broker, unfolded Let_def o fst_conv snd_conv append_Nil]
  note zero = partial_name_inspection[where search_term = "''zzz''" and choice = "''0''"
      and mgmt = example_reply and ch = example_broker, unfolded Let_def o fst_conv snd_conv append_Nil]
  note one = partial_name_inspection[where search_term = "''TCP''" and choice = "''0''"
      and mgmt = example_reply and ch = example_broker, unfolded Let_def o fst_conv snd_conv append_Nil]
  note exact = partial_name_inspection[where search_term = "''350317177240177''" and choice = "''0''"
      and mgmt = example_reply and ch = example_broker, unfolded Let_def o fst_conv snd_conv append_Nil]
  have c_many: "\<exists>rest. snd (snd (inspect_queues_by_partial_name ''3503'' ''0'' example_reply example_broker)) =
          (PRINT, ''SEARCHING FOR QUEUES CONTAINING'', [JStr ''3503''])
          # snd (snd (discover_queues_smart example_reply example_broker)) @
          (PRINT, ''Found matching queues'', [JInt 3])
          # [(PRINT, ''match'', [JInt 1, JStr ''350317177240178'', JInt 7, JInt 1, JStr ''ACTIVE'']),
             (PRINT, ''match'', [JInt 2, JStr ''350317177240177'', JInt 2, JInt 0, JStr ''IDLE'']),
             (PRINT, ''match'', [JInt 3, JStr ''350317177240179'', JInt 0, JInt 0, JStr ''IDLE''])]
          @ rest"
  proof -
    have "2 \<le> length (?M ''3503'')" unfolding m3 by simp
    with many obtain rest where
      "snd (snd (inspect_queues_by_partial_name ''3503'' ''0'' example_reply example_broker)) =
         (PRINT, ''SEARCHING FOR QUEUES CONTAINING'', [JStr ''3503''])
         # snd (snd (discover_queues_smart example_reply example_broker)) @
         (PRINT, ''Found matching queues'', [JInt (int (length (?M ''3503'')))])
         # map (\<lambda>(i, q).
                      (PRINT, ''match'',
                       [JInt (int i + 1),
                        JStr (if length (name q) > 29 then take 29 (name q) else name q),
                        JInt (messages q), JInt (consumers q),
                        JStr (if consumers q > 0 then ''ACTIVE'' else ''IDLE'')]))
             (enumerate 0 (sort_reverse messages (?M ''3503''))) @ rest"
      by blast
    then show ?thesis unfolding s3 unfolding m3
      by (intro exI[of _ rest]) simp
  qed
  have c_zero: "fst (inspect_queues_by_partial_name ''zzz'' ''0'' example_reply example_broker) = False"
    using zero mz by simp
  have c_one: "fst (inspect_queues_by_partial_name ''TCP'' ''0'' example_reply example_broker)
          = fst (inspect_queue_by_name ''device_tcp_data''
                   (fst (snd (discover_queues_smart example_reply example_broker))))"
    using one unfolding mt by simp
  have c_exact: "take 4 (snd (queue_operations_inspect ''350317177240177'' ''0'' example_reply example_broker)) =
          [(PRINT, ''Found exact match'', [JStr ''350317177240177'']),
           (PRINT, ''INSPECTING QUEUE'', [JStr ''350317177240177'']),
           (PRINT, ''Queue Name'', [JStr ''350317177240177'']),
           (PRINT, ''Messages in Queue'', [JInt 2])]"
  proof -
    let ?c1 = "called (DeclarePassive ''350317177240177'') example_broker"
    from exact ex have a: "queue_operations_inspect ''350317177240177'' ''0'' example_reply example_broker =
            (fst (snd (inspect_queue_by_name ''350317177240177'' ?c1)),
             (PRINT, ''Found exact match'', [JStr ''350317177240177''])
             # snd (snd (inspect_queue_by_name ''350317177240177'' ?c1))
             @ (if fst (inspect_queue_by_name ''350317177240177'' ?c1)
                then []
                else [(PRINT, ''Tip: Use List Active Queues to see available queues'', []),
                      (PRINT, ''Try broader search terms'', [])]))"
      and b: "take 4 (snd (snd (inspect_queue_by_name ''350317177240177'' ?c1))) =
            [(PRINT, ''INSPECTING QUEUE'', [JStr ''350317177240177'']),
             (PRINT, ''Queue Name'', [JStr ''350317177240177'']),
             (PRINT, ''Messages in Queue'', [JInt (queue_depth example_broker ''350317177240177'')]),
             (PRINT, ''Active Consumers'',
                [JInt (case queues example_broker ''350317177240177'' of None \<Rightarrow> 0 | Some qu \<Rightarrow> int (consumer_count qu))])]"
      by simp_all
    let ?ls = "snd (snd (inspect_queue_by_name ''350317177240177'' ?c1))"
    from b have "length (take 4 ?ls) = 4" by simp
    then have len: "4 \<le> length ?ls" by simp
    then have "take 3 ?ls = take 3 (take 4 ?ls)" by simp
    with b have "take 3 ?ls = [(PRINT, ''INSPECTING QUEUE'', [JStr ''350317177240177'']),
             (PRINT, ''Queue Name'', [JStr ''350317177240177'']),
             (PRINT, ''Messages in Queue'', [JInt (queue_depth example_broker ''350317177240177'')])]"
      by simp
    then show ?thesis using len by (simp add: a depth)
  qed
  show ?thesis
    using c_many c_zero c_one c_exact ex mz
    unfolding s3 unfolding m3 mt by simp
qed

end
